theory Spec2Isabelle
  imports Main "HOL-Library.Word" "HOL-Library.List_Lexorder" "HOL-Library.Char_ord"
begin

section \<open>Package envvar: typed parsing of environment variables\<close>

text \<open>
  A shallow embedding of \<^verbatim>\<open>envvar.go\<close>. Go strings are byte sequences, here \<open>string\<close>
  (a list of 8-bit characters). Pointers to native variables are addresses into typed
  heaps, one heap per Go type, so that two values bound to the same variable alias as
  they do in Go. Errors are values; \<^verbatim>\<open>panic\<close> and \<^verbatim>\<open>os.Exit\<close> are outcomes.
\<close>

subsection \<open>Errors, panics and process exit\<close>

datatype strconv_err = ErrSyntax | ErrRange | ErrBase nat

text \<open>
  \<open>NumError f s e\<close> is \<^verbatim>\<open>&strconv.NumError{Func: f, Num: s, Err: e}\<close>.
  \<open>NoSuchVariable n\<close> is \<^verbatim>\<open>fmt.Errorf("no such environment variable %v", n)\<close>,
  \<open>InvalidValue v n e\<close> is \<^verbatim>\<open>fmt.Errorf("invalid value %q for env var %s: %v", v, n, e)\<close>
  and \<open>ErrorString s\<close> is \<^verbatim>\<open>errors.New(s)\<close>. The formatted errors keep their
  arguments instead of the rendered text.
\<close>

datatype error =
    NumError string string strconv_err
  | NoSuchVariable string
  | InvalidValue string string error
  | ErrorString string

datatype panic_value = PanicMsg string | PanicErr error

datatype 'a outcome = Return 'a | Panic panic_value | Exit int

subsection \<open>Memory and output\<close>

type_synonym addr = nat

text \<open>
  A \<^verbatim>\<open>float64\<close> is held as its 64 bits; floating-point arithmetic and the
  conversions between a number and its decimal text are not part of the embedding.
\<close>

type_synonym float64 = "64 word"

datatype writer = Stderr | Writer nat

datatype printed = Text string | ErrorText error

text \<open>
  The heaps of the native variables the values point to, the state \<open>user\<close> of the
  user-defined values, and every line written so far with the writer that received it.
  Platform-wide \<^verbatim>\<open>int\<close> and \<^verbatim>\<open>uint\<close> hold their mathematical value; the 64-bit
  kinds and \<^verbatim>\<open>time.Duration\<close> (an \<^verbatim>\<open>int64\<close>) are 64-bit words.
\<close>

record 'u world =
  bools :: "addr \<Rightarrow> bool"
  ints :: "addr \<Rightarrow> int"
  int64s :: "addr \<Rightarrow> 64 word"
  uints :: "addr \<Rightarrow> nat"
  uint64s :: "addr \<Rightarrow> 64 word"
  strings :: "addr \<Rightarrow> string"
  float64s :: "addr \<Rightarrow> float64"
  durations :: "addr \<Rightarrow> 64 word"
  user :: 'u
  written :: "(writer \<times> printed) list"

definition Fprintln :: "writer \<Rightarrow> printed \<Rightarrow> 'u world \<Rightarrow> 'u world" where
  "Fprintln wr p w = w\<lparr>written := written w @ [(wr, p)]\<rparr>"

text \<open>
  What the package takes from its platform and from the Go library without the
  repository holding its code: the width \<^verbatim>\<open>strconv.IntSize\<close> of \<^verbatim>\<open>int\<close> (32 or 64),
  and the floating-point and duration conversions, which stay parameters.
\<close>

record lib =
  IntSize :: nat
  ParseFloat :: "string \<Rightarrow> float64 \<times> error option"
  FormatFloat :: "float64 \<Rightarrow> string"
  ParseDuration :: "string \<Rightarrow> 64 word \<times> error option"
  Duration_String :: "64 word \<Rightarrow> string"

subsection \<open>strconv: booleans\<close>

text \<open>
  Modelled from the spec: \<^verbatim>\<open>strconv.ParseBool\<close> and \<^verbatim>\<open>strconv.FormatBool\<close> belong
  to the Go standard library, which is not among the repository's sources. The accepted
  tokens are those the specification and the package comment of \<^verbatim>\<open>envvar.go\<close> list;
  on any other text the library returns \<^verbatim>\<open>false\<close> with a syntax error.
\<close>

definition ParseBool :: "string \<Rightarrow> bool \<times> error option" where
  "ParseBool str =
     (if str \<in> set [''1'', ''t'', ''T'', ''true'', ''TRUE'', ''True''] then (True, None)
      else if str \<in> set [''0'', ''f'', ''F'', ''false'', ''FALSE'', ''False''] then (False, None)
      else (False, Some (NumError ''ParseBool'' str ErrSyntax)))"


subsection \<open>strconv: integers\<close>

text \<open>
  Modelled from the spec: \<^verbatim>\<open>strconv.ParseUint\<close> and \<^verbatim>\<open>strconv.ParseInt\<close> belong to
  the Go standard library, which is not among the repository's sources. The model
  follows the library's algorithm for the grammar the specification gives (decimal,
  \<^verbatim>\<open>0x\<close> hexadecimal, \<^verbatim>\<open>0\<close> octal, a sign for the signed kinds only): digits are
  accumulated in a \<^verbatim>\<open>uint64\<close> with explicit overflow tests; a malformed text is a
  syntax error with result 0; a value outside the width is a range error with the
  nearest bound of the width as result. The package always passes base 0 and a width
  of \<^verbatim>\<open>strconv.IntSize\<close> or 64, never the width 0 that stands for the platform's.
\<close>

definition digit_of :: "char \<Rightarrow> nat option" where
  "digit_of d =
     (if CHR ''0'' \<le> d \<and> d \<le> CHR ''9'' then Some (of_char d - of_char CHR ''0'')
      else if CHR ''a'' \<le> d \<and> d \<le> CHR ''z'' then Some (of_char d - of_char CHR ''a'' + 10)
      else if CHR ''A'' \<le> d \<and> d \<le> CHR ''Z'' then Some (of_char d - of_char CHR ''A'' + 10)
      else None)"

text \<open>Modelled from the spec: the loop of \<^verbatim>\<open>strconv.ParseUint\<close> over the digits: \<open>cutoff\<close> is the
  least number whose product with the base overflows a \<^verbatim>\<open>uint64\<close>, \<open>maxVal\<close> the largest
  number of the width.\<close>

fun ParseUint_loop ::
  "nat \<Rightarrow> 64 word \<Rightarrow> 64 word \<Rightarrow> string \<Rightarrow> 64 word \<Rightarrow> 64 word \<times> strconv_err option" where
  "ParseUint_loop base cutoff maxVal [] n = (n, None)"
| "ParseUint_loop base cutoff maxVal (d # ds) n =
     (case digit_of d of
        None \<Rightarrow> (0, Some ErrSyntax)
      | Some v \<Rightarrow>
          if v \<ge> base then (0, Some ErrSyntax)
          else if n \<ge> cutoff then (maxVal, Some ErrRange)
          else
            let n' = n * of_nat base;
                n1 = n' + of_nat v
            in if n1 < n' \<or> n1 > maxVal then (maxVal, Some ErrRange)
               else ParseUint_loop base cutoff maxVal ds n1)"

text \<open>Modelled from the spec: the constant \<^verbatim>\<open>maxUint64\<close> of \<^verbatim>\<open>strconv\<close>, \<^verbatim>\<open>1<<64 - 1\<close>.\<close>

definition maxUint64 :: "64 word" where
  "maxUint64 = - 1"

text \<open>Modelled from the spec: the part of \<^verbatim>\<open>strconv.ParseUint\<close> that sets \<open>cutoff\<close> and
  \<open>maxVal\<close> for the base and the width and runs the loop.\<close>

definition ParseUint_digits :: "nat \<Rightarrow> nat \<Rightarrow> string \<Rightarrow> 64 word \<times> strconv_err option" where
  "ParseUint_digits base bitSize ds =
     (let cutoff = maxUint64 div of_nat base + 1;
          maxVal = push_bit bitSize 1 - 1
      in ParseUint_loop base cutoff maxVal ds 0)"

text \<open>Modelled from the spec: \<^verbatim>\<open>strconv.ParseUint\<close> up to the wrapping of its error: with base 0
  the prefix of the text chooses the base.\<close>

definition ParseUint_raw :: "string \<Rightarrow> nat \<Rightarrow> nat \<Rightarrow> 64 word \<times> strconv_err option" where
  "ParseUint_raw s base bitSize =
     (if length s < 1 then (0, Some ErrSyntax)
      else if 2 \<le> base \<and> base \<le> 36 then ParseUint_digits base bitSize s
      else if base = 0 then
        (if hd s = CHR ''0'' \<and> length s > 1 \<and> (s ! 1 = CHR ''x'' \<or> s ! 1 = CHR ''X'') then
           (if length s < 3 then (0, Some ErrSyntax)
            else ParseUint_digits 16 bitSize (drop 2 s))
         else if hd s = CHR ''0'' then ParseUint_digits 8 bitSize (drop 1 s)
         else ParseUint_digits 10 bitSize s)
      else (0, Some (ErrBase base)))"

text \<open>Modelled from the spec: \<^verbatim>\<open>strconv.ParseUint\<close>, whose error is a \<^verbatim>\<open>NumError\<close> naming the
  function and the text.\<close>

definition ParseUint :: "string \<Rightarrow> nat \<Rightarrow> nat \<Rightarrow> 64 word \<times> error option" where
  "ParseUint s base bitSize =
     (case ParseUint_raw s base bitSize of
        (n, None) \<Rightarrow> (n, None)
      | (n, Some e) \<Rightarrow> (n, Some (NumError ''ParseUint'' s e)))"

text \<open>Modelled from the spec: \<^verbatim>\<open>strconv.ParseInt\<close>: it takes the sign off, parses the rest as
  unsigned, and checks the magnitude against the signed width.\<close>

definition ParseInt :: "string \<Rightarrow> nat \<Rightarrow> nat \<Rightarrow> 64 word \<times> error option" where
  "ParseInt s0 base bitSize =
     (if s0 = [] then (0, Some (NumError ''ParseInt'' s0 ErrSyntax))
      else
        let neg = (hd s0 = CHR ''-'');
            s = (if hd s0 = CHR ''+'' \<or> hd s0 = CHR ''-'' then tl s0 else s0);
            (un, err) = ParseUint_raw s base bitSize
        in if err \<noteq> None \<and> err \<noteq> Some ErrRange
           then (0, Some (NumError ''ParseInt'' s0 (the err)))
           else
             let cutoff = (push_bit (bitSize - 1) 1 :: 64 word)
             in if \<not> neg \<and> un \<ge> cutoff
                then (cutoff - 1, Some (NumError ''ParseInt'' s0 ErrRange))
                else if neg \<and> un > cutoff
                then (- cutoff, Some (NumError ''ParseInt'' s0 ErrRange))
                else (if neg then - un else un, None))"






text \<open>
  Go's conversions \<^verbatim>\<open>int(v)\<close> of an \<^verbatim>\<open>int64\<close> and \<^verbatim>\<open>uint(v)\<close> of a \<^verbatim>\<open>uint64\<close>
  keep the low \<^verbatim>\<open>IntSize\<close> bits.
\<close>

definition to_int :: "nat \<Rightarrow> 64 word \<Rightarrow> int" where
  "to_int bits v = signed_take_bit (bits - 1) (sint v)"

definition to_uint :: "nat \<Rightarrow> 64 word \<Rightarrow> nat" where
  "to_uint bits v = take_bit bits (unat v)"

subsection \<open>strconv: infinities and NaN\<close>

unbundle bit_operations_syntax













subsection \<open>Numeric literals\<close>

text \<open>
  The numeric literals of the specification and the number each one denotes: an
  unsigned literal is \<^verbatim>\<open>0x\<close> or \<^verbatim>\<open>0X\<close> and at least one hexadecimal digit, or
  \<^verbatim>\<open>0\<close> and octal digits, or decimal digits that do not start with \<^verbatim>\<open>0\<close>; a signed
  literal is an unsigned one, with \<^verbatim>\<open>-\<close> in front or not. These definitions are the
  yardstick for the parsers; the code does not use them.
\<close>

definition is_digits :: "nat \<Rightarrow> string \<Rightarrow> bool" where
  "is_digits base ds = list_all (\<lambda>c. case digit_of c of None \<Rightarrow> False | Some v \<Rightarrow> v < base) ds"

definition digits_value :: "nat \<Rightarrow> nat \<Rightarrow> string \<Rightarrow> nat" where
  "digits_value base start ds = foldl (\<lambda>acc c. acc * base + the (digit_of c)) start ds"

definition uint_literal :: "string \<Rightarrow> nat option" where
  "uint_literal s =
     (if 3 \<le> length s \<and> (take 2 s = ''0x'' \<or> take 2 s = ''0X'') \<and> is_digits 16 (drop 2 s)
      then Some (digits_value 16 0 (drop 2 s))
      else if s \<noteq> [] \<and> hd s = CHR ''0'' \<and> is_digits 8 (tl s)
      then Some (digits_value 8 0 (tl s))
      else if s \<noteq> [] \<and> hd s \<noteq> CHR ''0'' \<and> is_digits 10 s
      then Some (digits_value 10 0 s)
      else None)"

definition int_literal :: "string \<Rightarrow> int option" where
  "int_literal s =
     (if s \<noteq> [] \<and> hd s = CHR ''-'' then map_option (\<lambda>n. - int n) (uint_literal (tl s))
      else map_option int (uint_literal s))"

subsection \<open>The Value interface and the built-in kinds\<close>

text \<open>
  A \<^verbatim>\<open>Value\<close> is an interface value: a dynamic type and a pointer. Each built-in kind
  is a pointer to the native variable it was bound to. A user-defined kind brings its
  own \<^verbatim>\<open>Set\<close> and \<^verbatim>\<open>String\<close> methods, which act on the memory (they are not given
  the set that holds them).
\<close>

datatype 'u Value =
    boolValue addr
  | intValue addr
  | int64Value addr
  | uintValue addr
  | uint64Value addr
  | stringValue addr
  | float64Value addr
  | durationValue addr
  | userValue "string \<Rightarrow> 'u world \<Rightarrow> error option \<times> 'u world" "'u world \<Rightarrow> string"

definition newBoolValue :: "bool \<Rightarrow> addr \<Rightarrow> 'u world \<Rightarrow> 'u Value \<times> 'u world" where
  "newBoolValue val p w = (boolValue p, w\<lparr>bools := (bools w)(p := val)\<rparr>)"

definition boolValue_Set :: "addr \<Rightarrow> string \<Rightarrow> 'u world \<Rightarrow> error option \<times> 'u world" where
  "boolValue_Set b s w =
     (let (v, err) = ParseBool s
      in (err, w\<lparr>bools := (bools w)(b := v)\<rparr>))"


definition newIntValue :: "int \<Rightarrow> addr \<Rightarrow> 'u world \<Rightarrow> 'u Value \<times> 'u world" where
  "newIntValue val p w = (intValue p, w\<lparr>ints := (ints w)(p := val)\<rparr>)"

definition intValue_Set :: "lib \<Rightarrow> addr \<Rightarrow> string \<Rightarrow> 'u world \<Rightarrow> error option \<times> 'u world" where
  "intValue_Set L i s w =
     (let (v, err) = ParseInt s 0 (IntSize L)
      in (err, w\<lparr>ints := (ints w)(i := to_int (IntSize L) v)\<rparr>))"


definition newInt64Value :: "64 word \<Rightarrow> addr \<Rightarrow> 'u world \<Rightarrow> 'u Value \<times> 'u world" where
  "newInt64Value val p w = (int64Value p, w\<lparr>int64s := (int64s w)(p := val)\<rparr>)"

definition int64Value_Set :: "addr \<Rightarrow> string \<Rightarrow> 'u world \<Rightarrow> error option \<times> 'u world" where
  "int64Value_Set i s w =
     (let (v, err) = ParseInt s 0 64
      in (err, w\<lparr>int64s := (int64s w)(i := v)\<rparr>))"


definition newUintValue :: "nat \<Rightarrow> addr \<Rightarrow> 'u world \<Rightarrow> 'u Value \<times> 'u world" where
  "newUintValue val p w = (uintValue p, w\<lparr>uints := (uints w)(p := val)\<rparr>)"

definition uintValue_Set :: "lib \<Rightarrow> addr \<Rightarrow> string \<Rightarrow> 'u world \<Rightarrow> error option \<times> 'u world" where
  "uintValue_Set L i s w =
     (let (v, err) = ParseUint s 0 (IntSize L)
      in (err, w\<lparr>uints := (uints w)(i := to_uint (IntSize L) v)\<rparr>))"


definition newUint64Value :: "64 word \<Rightarrow> addr \<Rightarrow> 'u world \<Rightarrow> 'u Value \<times> 'u world" where
  "newUint64Value val p w = (uint64Value p, w\<lparr>uint64s := (uint64s w)(p := val)\<rparr>)"

definition uint64Value_Set :: "addr \<Rightarrow> string \<Rightarrow> 'u world \<Rightarrow> error option \<times> 'u world" where
  "uint64Value_Set i s w =
     (let (v, err) = ParseUint s 0 64
      in (err, w\<lparr>uint64s := (uint64s w)(i := v)\<rparr>))"


definition newStringValue :: "string \<Rightarrow> addr \<Rightarrow> 'u world \<Rightarrow> 'u Value \<times> 'u world" where
  "newStringValue val p w = (stringValue p, w\<lparr>strings := (strings w)(p := val)\<rparr>)"

definition stringValue_Set :: "addr \<Rightarrow> string \<Rightarrow> 'u world \<Rightarrow> error option \<times> 'u world" where
  "stringValue_Set s val w = (None, w\<lparr>strings := (strings w)(s := val)\<rparr>)"


definition newFloat64Value :: "float64 \<Rightarrow> addr \<Rightarrow> 'u world \<Rightarrow> 'u Value \<times> 'u world" where
  "newFloat64Value val p w = (float64Value p, w\<lparr>float64s := (float64s w)(p := val)\<rparr>)"

definition float64Value_Set :: "lib \<Rightarrow> addr \<Rightarrow> string \<Rightarrow> 'u world \<Rightarrow> error option \<times> 'u world" where
  "float64Value_Set L f s w =
     (let (v, err) = ParseFloat L s
      in (err, w\<lparr>float64s := (float64s w)(f := v)\<rparr>))"


definition newDurationValue :: "64 word \<Rightarrow> addr \<Rightarrow> 'u world \<Rightarrow> 'u Value \<times> 'u world" where
  "newDurationValue val p w = (durationValue p, w\<lparr>durations := (durations w)(p := val)\<rparr>)"

definition durationValue_Set :: "lib \<Rightarrow> addr \<Rightarrow> string \<Rightarrow> 'u world \<Rightarrow> error option \<times> 'u world" where
  "durationValue_Set L d s w =
     (let (v, err) = ParseDuration L s
      in (err, w\<lparr>durations := (durations w)(d := v)\<rparr>))"


text \<open>The call \<^verbatim>\<open>v.Set(s)\<close> on an interface value dispatches on its dynamic type.\<close>

fun Value_Set :: "lib \<Rightarrow> 'u Value \<Rightarrow> string \<Rightarrow> 'u world \<Rightarrow> error option \<times> 'u world" where
  "Value_Set L (boolValue p) s w = boolValue_Set p s w"
| "Value_Set L (intValue p) s w = intValue_Set L p s w"
| "Value_Set L (int64Value p) s w = int64Value_Set p s w"
| "Value_Set L (uintValue p) s w = uintValue_Set L p s w"
| "Value_Set L (uint64Value p) s w = uint64Value_Set p s w"
| "Value_Set L (stringValue p) s w = stringValue_Set p s w"
| "Value_Set L (float64Value p) s w = float64Value_Set L p s w"
| "Value_Set L (durationValue p) s w = durationValue_Set L p s w"
| "Value_Set L (userValue set_fn string_fn) s w = set_fn s w"



subsection \<open>The set of variables\<close>

text \<open>
  \<^verbatim>\<open>ErrorHandling\<close> is an \<^verbatim>\<open>int\<close> type with three named constants; a set can hold any
  other number too.
\<close>

type_synonym ErrorHandling = int

definition ContinueOnError :: ErrorHandling where
  "ContinueOnError = 0"

definition ExitOnError :: ErrorHandling where
  "ExitOnError = 1"

definition PanicOnError :: ErrorHandling where
  "PanicOnError = 2"

record 'u EnvVar =
  Name :: string
  Value :: "'u Value"

text \<open>
  The two maps hold pointers to the records; a record is never written after \<^verbatim>\<open>Var\<close>
  allocated it, so the maps hold the records themselves. A \<^verbatim>\<open>nil\<close> map reads as the
  empty map, and both places that write a map allocate it first. The field \<^verbatim>\<open>output\<close> is
  \<open>outputW\<close> here, \<open>None\<close> for \<^verbatim>\<open>nil\<close>.
\<close>

record 'u EnvVarSet =
  name :: string
  parsed :: bool
  actual :: "string \<rightharpoonup> 'u EnvVar"
  formal :: "string \<rightharpoonup> 'u EnvVar"
  errorHandling :: ErrorHandling
  outputW :: "nat option"

definition NewEnvVarSet :: "string \<Rightarrow> ErrorHandling \<Rightarrow> 'u EnvVarSet" where
  "NewEnvVarSet nm eh =
     \<lparr>name = nm, parsed = False, actual = Map.empty, formal = Map.empty,
      errorHandling = eh, outputW = None\<rparr>"

definition Init :: "string \<Rightarrow> ErrorHandling \<Rightarrow> 'u EnvVarSet \<Rightarrow> 'u EnvVarSet" where
  "Init nm eh evs = evs\<lparr>name := nm, errorHandling := eh\<rparr>"

definition out :: "'u EnvVarSet \<Rightarrow> writer" where
  "out evs = (case outputW evs of None \<Rightarrow> Stderr | Some k \<Rightarrow> Writer k)"

definition SetOutput :: "nat option \<Rightarrow> 'u EnvVarSet \<Rightarrow> 'u EnvVarSet" where
  "SetOutput wr evs = evs\<lparr>outputW := wr\<rparr>"

definition Lookup :: "'u EnvVarSet \<Rightarrow> string \<Rightarrow> 'u EnvVar option" where
  "Lookup evs nm = formal evs nm"

definition NEnvVar :: "'u EnvVarSet \<Rightarrow> nat" where
  "NEnvVar evs = card (dom (actual evs))"

definition Parsed :: "'u EnvVarSet \<Rightarrow> bool" where
  "Parsed evs = parsed evs"

text \<open>\<^verbatim>\<open>Set\<close>: the direct assignment of one variable.\<close>

definition Set ::
  "lib \<Rightarrow> string \<Rightarrow> string \<Rightarrow> 'u EnvVarSet \<Rightarrow> 'u world
    \<Rightarrow> error option outcome \<times> 'u EnvVarSet \<times> 'u world" where
  "Set L nm val evs w =
     (case formal evs nm of
        None \<Rightarrow> (Return (Some (NoSuchVariable nm)), evs, w)
      | Some envVar \<Rightarrow>
          (case Value_Set L (Value envVar) val w of
             (Some err, w') \<Rightarrow> (Return (Some err), evs, w')
           | (None, w') \<Rightarrow> (Return None, evs\<lparr>actual := (actual evs)(nm \<mapsto> envVar)\<rparr>, w')))"

text \<open>
  \<^verbatim>\<open>Var\<close>: registration; a name already registered is printed and panics. The typed
  registrations write the default into the variable and then call \<^verbatim>\<open>Var\<close>.
\<close>

definition Var ::
  "'u Value \<Rightarrow> string \<Rightarrow> 'u EnvVarSet \<Rightarrow> 'u world \<Rightarrow> unit outcome \<times> 'u EnvVarSet \<times> 'u world" where
  "Var val nm evs w =
     (let envVar = \<lparr>Name = nm, Value = val\<rparr>
      in if formal evs nm \<noteq> None then
           let msg = (if name evs = [] then ''EnvVar redefined: '' @ nm
                      else name evs @ '' sets EnvVar redefined: '' @ nm)
           in (Panic (PanicMsg msg), evs, Fprintln (out evs) (Text msg) w)
         else (Return (), evs\<lparr>formal := (formal evs)(nm \<mapsto> envVar)\<rparr>, w))"

definition BoolVar ::
  "addr \<Rightarrow> string \<Rightarrow> bool \<Rightarrow> 'u EnvVarSet \<Rightarrow> 'u world \<Rightarrow> unit outcome \<times> 'u EnvVarSet \<times> 'u world" where
  "BoolVar p nm val evs w = (let (v, w') = newBoolValue val p w in Var v nm evs w')"

definition IntVar ::
  "addr \<Rightarrow> string \<Rightarrow> int \<Rightarrow> 'u EnvVarSet \<Rightarrow> 'u world \<Rightarrow> unit outcome \<times> 'u EnvVarSet \<times> 'u world" where
  "IntVar p nm val evs w = (let (v, w') = newIntValue val p w in Var v nm evs w')"

definition Int64Var ::
  "addr \<Rightarrow> string \<Rightarrow> 64 word \<Rightarrow> 'u EnvVarSet \<Rightarrow> 'u world \<Rightarrow> unit outcome \<times> 'u EnvVarSet \<times> 'u world" where
  "Int64Var p nm val evs w = (let (v, w') = newInt64Value val p w in Var v nm evs w')"

definition UintVar ::
  "addr \<Rightarrow> string \<Rightarrow> nat \<Rightarrow> 'u EnvVarSet \<Rightarrow> 'u world \<Rightarrow> unit outcome \<times> 'u EnvVarSet \<times> 'u world" where
  "UintVar p nm val evs w = (let (v, w') = newUintValue val p w in Var v nm evs w')"

definition Uint64Var ::
  "addr \<Rightarrow> string \<Rightarrow> 64 word \<Rightarrow> 'u EnvVarSet \<Rightarrow> 'u world \<Rightarrow> unit outcome \<times> 'u EnvVarSet \<times> 'u world" where
  "Uint64Var p nm val evs w = (let (v, w') = newUint64Value val p w in Var v nm evs w')"

definition Float64Var ::
  "addr \<Rightarrow> string \<Rightarrow> float64 \<Rightarrow> 'u EnvVarSet \<Rightarrow> 'u world \<Rightarrow> unit outcome \<times> 'u EnvVarSet \<times> 'u world" where
  "Float64Var p nm val evs w = (let (v, w') = newFloat64Value val p w in Var v nm evs w')"

definition DurationVar ::
  "addr \<Rightarrow> string \<Rightarrow> 64 word \<Rightarrow> 'u EnvVarSet \<Rightarrow> 'u world \<Rightarrow> unit outcome \<times> 'u EnvVarSet \<times> 'u world" where
  "DurationVar p nm val evs w = (let (v, w') = newDurationValue val p w in Var v nm evs w')"

definition StringVar ::
  "addr \<Rightarrow> string \<Rightarrow> string \<Rightarrow> 'u EnvVarSet \<Rightarrow> 'u world \<Rightarrow> unit outcome \<times> 'u EnvVarSet \<times> 'u world" where
  "StringVar p nm val evs w = (let (v, w') = newStringValue val p w in Var v nm evs w')"

text \<open>\<^verbatim>\<open>failf\<close> prints the error it was asked to format and returns it.\<close>

definition failf :: "'u EnvVarSet \<Rightarrow> error \<Rightarrow> 'u world \<Rightarrow> error \<times> 'u world" where
  "failf evs err w = (err, Fprintln (out evs) (ErrorText err) w)"

text \<open>
  The loop of \<^verbatim>\<open>parseOne\<close> from index \<open>i\<close>: the name and the value around the first
  \<^verbatim>\<open>=\<close> at an index from \<open>i\<close> on, and two empty strings when there is none.
\<close>

function parseOne_loop :: "string \<Rightarrow> nat \<Rightarrow> string \<times> string" where
  "parseOne_loop envString i =
     (if i < length envString then
        (if envString ! i = CHR ''='' then (take i envString, drop (i + 1) envString)
         else parseOne_loop envString (i + 1))
      else ([], []))"
  by pat_completeness auto
termination
  by (relation "measure (\<lambda>(envString, i). length envString - i)") auto

declare parseOne_loop.simps [simp del]

definition parseOne ::
  "lib \<Rightarrow> string \<Rightarrow> 'u EnvVarSet \<Rightarrow> 'u world \<Rightarrow> error option \<times> 'u EnvVarSet \<times> 'u world" where
  "parseOne L envString evs w =
     (let (nm, val) = parseOne_loop envString 1
      in case formal evs nm of
           None \<Rightarrow> (None, evs, w)
         | Some envVar \<Rightarrow>
             (case Value_Set L (Value envVar) val w of
                (Some err, w') \<Rightarrow>
                  (let (e, w'') = failf evs (InvalidValue val nm err) w'
                   in (Some e, evs, w''))
              | (None, w') \<Rightarrow> (None, evs\<lparr>actual := (actual evs)(nm \<mapsto> envVar)\<rparr>, w')))"

text \<open>
  The loop of \<^verbatim>\<open>Parse\<close> over the entries. Its \<^verbatim>\<open>switch\<close> has no default: under an
  error handling that is none of the three constants the loop goes on.
\<close>

fun Parse_loop ::
  "lib \<Rightarrow> string list \<Rightarrow> 'u EnvVarSet \<Rightarrow> 'u world
    \<Rightarrow> error option outcome \<times> 'u EnvVarSet \<times> 'u world" where
  "Parse_loop L [] evs w = (Return None, evs, w)"
| "Parse_loop L (envString # rest) evs w =
     (case parseOne L envString evs w of
        (None, evs', w') \<Rightarrow> Parse_loop L rest evs' w'
      | (Some err, evs', w') \<Rightarrow>
          if errorHandling evs' = ContinueOnError then (Return (Some err), evs', w')
          else if errorHandling evs' = ExitOnError then (Exit 2, evs', w')
          else if errorHandling evs' = PanicOnError then (Panic (PanicErr err), evs', w')
          else Parse_loop L rest evs' w')"

definition Parse ::
  "lib \<Rightarrow> string list \<Rightarrow> 'u EnvVarSet \<Rightarrow> 'u world
    \<Rightarrow> error option outcome \<times> 'u EnvVarSet \<times> 'u world" where
  "Parse L environment evs w = Parse_loop L environment (evs\<lparr>parsed := True\<rparr>) w"

subsection \<open>Visiting in sorted order\<close>

text \<open>
  \<^verbatim>\<open>sortEnvVars\<close> ranges over the map in an order Go leaves open: \<open>order\<close> is the
  order in which this run of the loop meets the keys. The loop collects the \<^verbatim>\<open>Name\<close>
  field of each record, \<^verbatim>\<open>sort.StringSlice.Sort\<close> sorts the names by the order of Go
  strings (bytewise lexicographic; \<open>sort\<close> yields the one sorted arrangement), and the
  second loop looks every name up again: a name that is no key gives a \<^verbatim>\<open>nil\<close>
  record, \<open>None\<close>.
\<close>

definition sortEnvVars :: "(string \<rightharpoonup> 'u EnvVar) \<Rightarrow> string list \<Rightarrow> 'u EnvVar option list" where
  "sortEnvVars envVars order =
     (let list = map (\<lambda>k. Name (the (envVars k))) order
      in map envVars (sort list))"

text \<open>
  The observer \<open>fn\<close> is run on each record in turn; what it does is a change of a
  state \<open>'s\<close> of its own.
\<close>

definition VisitAll ::
  "'u EnvVarSet \<Rightarrow> string list \<Rightarrow> ('u EnvVar option \<Rightarrow> 's \<Rightarrow> 's) \<Rightarrow> 's \<Rightarrow> 's" where
  "VisitAll evs order fn s = foldl (\<lambda>s envVar. fn envVar s) s (sortEnvVars (formal evs) order)"

definition Visit ::
  "'u EnvVarSet \<Rightarrow> string list \<Rightarrow> ('u EnvVar option \<Rightarrow> 's \<Rightarrow> 's) \<Rightarrow> 's \<Rightarrow> 's" where
  "Visit evs order fn s = foldl (\<lambda>s envVar. fn envVar s) s (sortEnvVars (actual evs) order)"

subsection \<open>Sequences of operations on a set\<close>

text \<open>
  A caller registers, assigns and parses in any order. A panic that the caller recovers
  from leaves the state the panicking call had reached, and the next operation runs on
  it; \<^verbatim>\<open>os.Exit\<close> ends the process, and no later operation runs.
\<close>

datatype 'u op = OpVar "'u Value" string | OpSet string string | OpParse "string list"

definition exited :: "'a outcome \<Rightarrow> bool" where
  "exited r = (case r of Exit c \<Rightarrow> True | _ \<Rightarrow> False)"

fun exec_op :: "lib \<Rightarrow> 'u op \<Rightarrow> 'u EnvVarSet \<Rightarrow> 'u world \<Rightarrow> bool \<times> 'u EnvVarSet \<times> 'u world" where
  "exec_op L (OpVar v nm) evs w = (case Var v nm evs w of (r, evs', w') \<Rightarrow> (exited r, evs', w'))"
| "exec_op L (OpSet nm val) evs w = (case Set L nm val evs w of (r, evs', w') \<Rightarrow> (exited r, evs', w'))"
| "exec_op L (OpParse es) evs w = (case Parse L es evs w of (r, evs', w') \<Rightarrow> (exited r, evs', w'))"

fun run :: "lib \<Rightarrow> 'u op list \<Rightarrow> 'u EnvVarSet \<Rightarrow> 'u world \<Rightarrow> 'u EnvVarSet \<times> 'u world" where
  "run L [] evs w = (evs, w)"
| "run L (x # xs) evs w =
     (case exec_op L x evs w of
        (stop, evs', w') \<Rightarrow> if stop then (evs', w') else run L xs evs' w')"

text \<open>
  The names for which a value was successfully applied, in the specification's words:
  a direct \<^verbatim>\<open>Set\<close> or a \<^verbatim>\<open>Parse\<close> entry applies a value for a name when the name is
  registered and the \<^verbatim>\<open>Set\<close> method of its record accepts the text. A parse pass stops
  at a failing entry under each of the three named policies.
\<close>

definition text_applied :: "lib \<Rightarrow> string \<Rightarrow> string \<Rightarrow> 'u EnvVarSet \<Rightarrow> 'u world \<Rightarrow> string set" where
  "text_applied L nm val evs w =
     (case formal evs nm of
        None \<Rightarrow> {}
      | Some r \<Rightarrow> if fst (Value_Set L (Value r) val w) = None then {nm} else {})"

definition entry_applied :: "lib \<Rightarrow> string \<Rightarrow> 'u EnvVarSet \<Rightarrow> 'u world \<Rightarrow> string set" where
  "entry_applied L envString evs w =
     (let (nm, val) = parseOne_loop envString 1 in text_applied L nm val evs w)"

fun parse_applied :: "lib \<Rightarrow> string list \<Rightarrow> 'u EnvVarSet \<Rightarrow> 'u world \<Rightarrow> string set" where
  "parse_applied L [] evs w = {}"
| "parse_applied L (e # es) evs w =
     entry_applied L e evs w \<union>
     (case parseOne L e evs w of
        (err, evs', w') \<Rightarrow>
          if err \<noteq> None \<and> errorHandling evs' \<in> {ContinueOnError, ExitOnError, PanicOnError}
          then {} else parse_applied L es evs' w')"

fun op_applied :: "lib \<Rightarrow> 'u op \<Rightarrow> 'u EnvVarSet \<Rightarrow> 'u world \<Rightarrow> string set" where
  "op_applied L (OpVar v nm) evs w = {}"
| "op_applied L (OpSet nm val) evs w = text_applied L nm val evs w"
| "op_applied L (OpParse es) evs w = parse_applied L es evs w"

fun applied :: "lib \<Rightarrow> 'u op list \<Rightarrow> 'u EnvVarSet \<Rightarrow> 'u world \<Rightarrow> string set" where
  "applied L [] evs w = {}"
| "applied L (x # xs) evs w =
     op_applied L x evs w \<union>
     (case exec_op L x evs w of
        (stop, evs', w') \<Rightarrow> if stop then {} else applied L xs evs' w')"

subsection \<open>Concrete states for the examples\<close>

text \<open>
  A memory whose variables all hold the zero value of their type, and a library for a
  platform of the given width whose conversions of floating-point numbers and of
  durations reject every text (no example reaches them).
\<close>

definition zero_world :: "unit world" where
  "zero_world =
     \<lparr>bools = (\<lambda>p. False), ints = (\<lambda>p. 0), int64s = (\<lambda>p. 0), uints = (\<lambda>p. 0),
      uint64s = (\<lambda>p. 0), strings = (\<lambda>p. []), float64s = (\<lambda>p. 0), durations = (\<lambda>p. 0),
      user = (), written = []\<rparr>"

definition example_lib :: "nat \<Rightarrow> lib" where
  "example_lib bits =
     \<lparr>IntSize = bits,
      ParseFloat = (\<lambda>s. (0, Some (NumError ''ParseFloat'' s ErrSyntax))),
      FormatFloat = (\<lambda>f. []),
      ParseDuration = (\<lambda>s. (0, Some (ErrorString (''time: invalid duration '' @ s)))),
      Duration_String = (\<lambda>d. [])\<rparr>"

text \<open>
  The set named \<^verbatim>\<open>test\<close> with three \<^verbatim>\<open>int\<close> variables \<^verbatim>\<open>A\<close>, \<^verbatim>\<open>B\<close> and \<^verbatim>\<open>C\<close>
  at the addresses 0, 1 and 2, registered in the order \<^verbatim>\<open>C\<close>, \<^verbatim>\<open>A\<close>, \<^verbatim>\<open>B\<close>, and a
  memory in which every \<^verbatim>\<open>int\<close> variable holds 7.
\<close>

definition abc_set :: "unit EnvVarSet" where
  "abc_set =
     fst (run (example_lib 64)
            [OpVar (intValue 2) ''C'', OpVar (intValue 0) ''A'', OpVar (intValue 1) ''B'']
            (NewEnvVarSet ''test'' ContinueOnError) zero_world)"

definition sevens :: "unit world" where
  "sevens = zero_world\<lparr>ints := (\<lambda>p. 7)\<rparr>"

text \<open>
  The observer of the package's own test, which appends the name of each record it is
  given to a list (a \<^verbatim>\<open>nil\<close> record has no name to read).
\<close>

definition note_name :: "'u EnvVar option \<Rightarrow> string list \<Rightarrow> string list" where
  "note_name envVar seen = (case envVar of None \<Rightarrow> seen | Some r \<Rightarrow> seen @ [Name r])"

section \<open>Registration and direct assignment\<close>



text \<open>
  C4. A direct \<^verbatim>\<open>Set\<close> of a name that is not registered returns the error "no such
  environment variable"; otherwise it calls the \<^verbatim>\<open>Set\<close> method of the record, returns
  the error of that call as it is, and on success enters the record in \<open>actual\<close>. It
  always returns: its outcome is never a panic or an exit, and neither the outcome nor
  the memory depends on the error handling of the set.
\<close>

theorem Set_returns_a_result:
  "(formal evs nm = None \<longrightarrow>
      Set L nm val evs w = (Return (Some (NoSuchVariable nm)), evs, w))
   \<and> (\<forall>r e w'. formal evs nm = Some r \<and> Value_Set L (Value r) val w = (Some e, w') \<longrightarrow>
        Set L nm val evs w = (Return (Some e), evs, w'))
   \<and> (\<forall>r w'. formal evs nm = Some r \<and> Value_Set L (Value r) val w = (None, w') \<longrightarrow>
        Set L nm val evs w = (Return None, evs\<lparr>actual := (actual evs)(nm \<mapsto> r)\<rparr>, w'))
   \<and> (\<exists>res. fst (Set L nm val evs w) = Return res)
   \<and> (\<forall>eh. fst (Set L nm val (evs\<lparr>errorHandling := eh\<rparr>) w) = fst (Set L nm val evs w)
         \<and> snd (snd (Set L nm val (evs\<lparr>errorHandling := eh\<rparr>) w)) = snd (snd (Set L nm val evs w)))"
  by (auto simp add: Set_def split: option.splits prod.splits)

theorem Set_returns_a_result_witness:
  "Set (example_lib 32) ''X'' ''1''
     (fst (snd (Var (boolValue 0) ''B'' (NewEnvVarSet ''t'' PanicOnError) zero_world))) zero_world
   = (Return (Some (NoSuchVariable ''X'')),
      fst (snd (Var (boolValue 0) ''B'' (NewEnvVarSet ''t'' PanicOnError) zero_world)), zero_world)
   \<and> Set (example_lib 32) ''B'' ''maybe''
     (fst (snd (Var (boolValue 0) ''B'' (NewEnvVarSet ''t'' PanicOnError) zero_world))) zero_world
   = (Return (Some (NumError ''ParseBool'' ''maybe'' ErrSyntax)),
      fst (snd (Var (boolValue 0) ''B'' (NewEnvVarSet ''t'' PanicOnError) zero_world)), zero_world)
   \<and> Set (example_lib 32) ''B'' ''T''
     (fst (snd (Var (boolValue 0) ''B'' (NewEnvVarSet ''t'' PanicOnError) zero_world))) zero_world
   = (Return None,
      (fst (snd (Var (boolValue 0) ''B'' (NewEnvVarSet ''t'' PanicOnError) zero_world)))
        \<lparr>actual := [''B'' \<mapsto> \<lparr>Name = ''B'', Value = boolValue 0\<rparr>]\<rparr>,
      zero_world\<lparr>bools := (bools zero_world)(0 := True)\<rparr>)"
proof -
  let ?evs = "fst (snd (Var (boolValue 0) ''B'' (NewEnvVarSet ''t'' PanicOnError) zero_world)) :: unit EnvVarSet"
  have f1: "formal ?evs ''X'' = None"
    and f2: "formal ?evs ''B'' = Some \<lparr>Name = ''B'', Value = boolValue 0\<rparr>"
    and a: "actual ?evs = Map.empty"
    by (simp_all add: Var_def NewEnvVarSet_def)
  have v1: "Value_Set (example_lib 32) (Value \<lparr>Name = ''B'', Value = boolValue 0 :: unit Value\<rparr>) ''maybe'' zero_world
              = (Some (NumError ''ParseBool'' ''maybe'' ErrSyntax), zero_world)"
    and v2: "Value_Set (example_lib 32) (Value \<lparr>Name = ''B'', Value = boolValue 0 :: unit Value\<rparr>) ''T'' zero_world
              = (None, zero_world\<lparr>bools := (bools zero_world)(0 := True)\<rparr>)"
    by (simp_all add: boolValue_Set_def ParseBool_def zero_world_def fun_eq_iff)
  show ?thesis
    using Set_returns_a_result [of ?evs "''X''" "example_lib 32" "''1''" zero_world]
      Set_returns_a_result [of ?evs "''B''" "example_lib 32" "''maybe''" zero_world]
      Set_returns_a_result [of ?evs "''B''" "example_lib 32" "''T''" zero_world]
      f1 f2 v1 v2 a
    by simp
qed

section \<open>The built-in kinds\<close>

text \<open>
  C7. The \<^verbatim>\<open>Set\<close> method of the boolean kind succeeds on exactly the twelve tokens
  1, 0, t, f, T, F, true, false, TRUE, FALSE, True, False: it stores \<^verbatim>\<open>true\<close> for
  1, t, T, true, TRUE, True and \<^verbatim>\<open>false\<close> for 0, f, F, false, FALSE, False, and returns
  an error for every other text.
\<close>

theorem boolValue_Set_tokens:
  "(s \<in> {''1'', ''t'', ''T'', ''true'', ''TRUE'', ''True''} \<longrightarrow>
      boolValue_Set b s w = (None, w\<lparr>bools := (bools w)(b := True)\<rparr>))
   \<and> (s \<in> {''0'', ''f'', ''F'', ''false'', ''FALSE'', ''False''} \<longrightarrow>
      boolValue_Set b s w = (None, w\<lparr>bools := (bools w)(b := False)\<rparr>))
   \<and> (s \<notin> {''1'', ''0'', ''t'', ''f'', ''T'', ''F'', ''true'', ''false'', ''TRUE'', ''FALSE'', ''True'', ''False''} \<longrightarrow>
      fst (boolValue_Set b s w) = Some (NumError ''ParseBool'' s ErrSyntax))
   \<and> (fst (boolValue_Set b s w) = None \<longleftrightarrow>
      s \<in> {''1'', ''0'', ''t'', ''f'', ''T'', ''F'', ''true'', ''false'', ''TRUE'', ''FALSE'', ''True'', ''False''})"
  by (auto simp add: boolValue_Set_def ParseBool_def)

theorem boolValue_Set_tokens_witness:
  "boolValue_Set 0 ''TRUE'' zero_world = (None, zero_world\<lparr>bools := (bools zero_world)(0 := True)\<rparr>)
   \<and> boolValue_Set 0 ''f'' (zero_world\<lparr>bools := (bools zero_world)(0 := True)\<rparr>)
       = (None, zero_world\<lparr>bools := ((bools zero_world)(0 := True))(0 := False)\<rparr>)
   \<and> fst (boolValue_Set 0 ''yes'' zero_world) = Some (NumError ''ParseBool'' ''yes'' ErrSyntax)
   \<and> fst (boolValue_Set 0 ''tRUE'' zero_world) \<noteq> None"
  using boolValue_Set_tokens [of "''TRUE''" 0 zero_world]
    boolValue_Set_tokens [of "''f''" 0 "zero_world\<lparr>bools := (bools zero_world)(0 := True)\<rparr>"]
    boolValue_Set_tokens [of "''yes''" 0 zero_world]
    boolValue_Set_tokens [of "''tRUE''" 0 zero_world]
  by simp

section \<open>Parsing the entries\<close>

subsection \<open>Splitting one entry\<close>

lemma parseOne_loop_none:
  "(\<And>j. i \<le> j \<Longrightarrow> j < length s \<Longrightarrow> s ! j \<noteq> CHR ''='') \<Longrightarrow> parseOne_loop s i = ([], [])"
proof (induction s i rule: parseOne_loop.induct)
  case (1 envString i)
  show ?case
  proof (cases "i < length envString")
    case True
    with "1.prems" have ne: "envString ! i \<noteq> CHR ''=''" by simp
    have "parseOne_loop envString (i + 1) = ([], [])"
      using True ne "1.prems" by (intro "1.IH") auto
    with True ne show ?thesis by (simp add: parseOne_loop.simps [of envString i])
  next
    case False
    then show ?thesis by (simp add: parseOne_loop.simps [of envString i])
  qed
qed

lemma parseOne_loop_first:
  "i \<le> k \<Longrightarrow> k < length s \<Longrightarrow> s ! k = CHR ''='' \<Longrightarrow>
   (\<And>j. i \<le> j \<Longrightarrow> j < k \<Longrightarrow> s ! j \<noteq> CHR ''='') \<Longrightarrow>
   parseOne_loop s i = (take k s, drop (Suc k) s)"
proof (induction s i rule: parseOne_loop.induct)
  case (1 envString i)
  show ?case
  proof (cases "i = k")
    case True
    with "1.prems" show ?thesis by (simp add: parseOne_loop.simps [of envString k])
  next
    case False
    with "1.prems" have lt: "i < k" and ne: "envString ! i \<noteq> CHR ''=''" and il: "i < length envString"
      by auto
    have "parseOne_loop envString (i + 1) = (take k envString, drop (Suc k) envString)"
      using il ne lt "1.prems" by (intro "1.IH") auto
    with il ne show ?thesis by (simp add: parseOne_loop.simps [of envString i])
  qed
qed

text \<open>
  C1 (as amended). \<^verbatim>\<open>parseOne\<close> takes as name the text before the first \<^verbatim>\<open>=\<close> at
  an index of at least 1 and as value the text after it; when the entry has no \<^verbatim>\<open>=\<close>
  at an index of at least 1, name and value are both empty. An entry whose derived name,
  the empty one included, is not registered is ignored: no error, the set and the memory
  unchanged, nothing written. (\<^verbatim>\<open>Var\<close> accepts the empty name, so the empty name can be
  registered.)
\<close>

theorem parseOne_split_and_ignore:
  "(\<forall>i. 1 \<le> i \<and> i < length s \<and> s ! i = CHR ''='' \<and> (\<forall>j. 1 \<le> j \<and> j < i \<longrightarrow> s ! j \<noteq> CHR ''='')
        \<longrightarrow> parseOne_loop s 1 = (take i s, drop (Suc i) s))
   \<and> ((\<forall>i. 1 \<le> i \<and> i < length s \<longrightarrow> s ! i \<noteq> CHR ''='') \<longrightarrow> parseOne_loop s 1 = ([], []))
   \<and> (formal evs (fst (parseOne_loop s 1)) = None \<longrightarrow> parseOne L s evs w = (None, evs, w))"
proof (intro conjI allI impI)
  fix i
  assume "1 \<le> i \<and> i < length s \<and> s ! i = CHR ''='' \<and> (\<forall>j. 1 \<le> j \<and> j < i \<longrightarrow> s ! j \<noteq> CHR ''='')"
  then show "parseOne_loop s 1 = (take i s, drop (Suc i) s)"
    by (intro parseOne_loop_first) auto
next
  assume "\<forall>i. 1 \<le> i \<and> i < length s \<longrightarrow> s ! i \<noteq> CHR ''=''"
  then show "parseOne_loop s 1 = ([], [])"
    by (intro parseOne_loop_none) auto
next
  assume "formal evs (fst (parseOne_loop s 1)) = None"
  then show "parseOne L s evs w = (None, evs, w)"
    by (auto simp add: parseOne_def split: prod.splits)
qed


theorem parseOne_split_and_ignore_witness:
  "parseOne_loop ''A=B=C'' 1 = (''A'', ''B=C'')
   \<and> parseOne_loop ''=A'' 1 = ([], [])
   \<and> parseOne (example_lib 64) ''HOME=/root''
       (fst (snd (Var (boolValue 0) ''DEBUG'' (NewEnvVarSet ''t'' ExitOnError) zero_world))) zero_world
     = (None, fst (snd (Var (boolValue 0) ''DEBUG'' (NewEnvVarSet ''t'' ExitOnError) zero_world)), zero_world)"
proof -
  let ?evs = "fst (snd (Var (boolValue 0) ''DEBUG'' (NewEnvVarSet ''t'' ExitOnError) zero_world)) :: unit EnvVarSet"
  have a: "(1::nat) \<le> 1 \<and> 1 < length ''A=B=C'' \<and> ''A=B=C'' ! 1 = CHR ''=''
             \<and> (\<forall>j. 1 \<le> j \<and> j < (1::nat) \<longrightarrow> ''A=B=C'' ! j \<noteq> CHR ''='')"
    by simp
  have b: "\<forall>i. 1 \<le> i \<and> i < length ''=A'' \<longrightarrow> ''=A'' ! i \<noteq> CHR ''=''"
    by (simp add: nth_Cons split: nat.splits)
  have c: "parseOne_loop ''HOME=/root'' 1 = (''HOME'', ''/root'')"
    by (simp add: parseOne_loop.simps)
  have d: "formal ?evs (fst (parseOne_loop ''HOME=/root'' 1)) = None"
    unfolding c by (simp add: Var_def NewEnvVarSet_def)
  have t1: "parseOne_loop ''A=B=C'' 1 = (take 1 ''A=B=C'', drop (Suc 1) ''A=B=C'')"
    using parseOne_split_and_ignore [of "''A=B=C''" ?evs "example_lib 64" zero_world] a
    by blast
  have t2: "parseOne_loop ''=A'' 1 = ([], [])"
    using parseOne_split_and_ignore [of "''=A''" ?evs "example_lib 64" zero_world] b
    by blast
  have t3: "parseOne (example_lib 64) ''HOME=/root'' ?evs zero_world = (None, ?evs, zero_world)"
    using parseOne_split_and_ignore [of "''HOME=/root''" ?evs "example_lib 64" zero_world] d
    by blast
  from t1 t2 t3 show ?thesis
    by simp
qed

text \<open>
  The claim as it was stated fails where the empty name is registered: the entry
  \<^verbatim>\<open>HOME\<close> has no \<^verbatim>\<open>=\<close>, yet on a set with a boolean variable of the empty name it
  returns an error and prints it, and on a set with a string variable of the empty name
  it overwrites the variable and enters the record in \<open>actual\<close>.
\<close>

theorem parseOne_empty_name_counterexample:
  "parseOne_loop ''HOME'' 1 = ([], [])
   \<and> parseOne (example_lib 64) ''HOME''
       (fst (snd (Var (boolValue 0) [] (NewEnvVarSet ''t'' ContinueOnError) zero_world))) zero_world
     = (Some (InvalidValue [] [] (NumError ''ParseBool'' [] ErrSyntax)),
        fst (snd (Var (boolValue 0) [] (NewEnvVarSet ''t'' ContinueOnError) zero_world)),
        zero_world\<lparr>written := [(Stderr, ErrorText (InvalidValue [] [] (NumError ''ParseBool'' [] ErrSyntax)))]\<rparr>)
   \<and> actual (fst (snd (parseOne (example_lib 64) ''HOME''
       (fst (snd (Var (stringValue 0) [] (NewEnvVarSet ''t'' ContinueOnError) zero_world)))
       (zero_world\<lparr>strings := (strings zero_world)(0 := ''default'')\<rparr>)))) []
     = Some \<lparr>Name = [], Value = stringValue 0\<rparr>
   \<and> strings (snd (snd (parseOne (example_lib 64) ''HOME''
       (fst (snd (Var (stringValue 0) [] (NewEnvVarSet ''t'' ContinueOnError) zero_world)))
       (zero_world\<lparr>strings := (strings zero_world)(0 := ''default'')\<rparr>)))) 0
     = []"
  by (simp add: parseOne_loop.simps parseOne_def Var_def NewEnvVarSet_def boolValue_Set_def
      ParseBool_def failf_def Fprintln_def out_def zero_world_def stringValue_Set_def fun_eq_iff)

subsection \<open>The parse pass\<close>

lemma parseOne_fields:
  assumes "parseOne L e evs w = (r, evs', w')"
  shows "formal evs' = formal evs" and "errorHandling evs' = errorHandling evs"
    and "name evs' = name evs" and "outputW evs' = outputW evs" and "parsed evs' = parsed evs"
  using assms
  by (auto simp add: parseOne_def failf_def split: prod.splits option.splits)

lemma Parse_loop_append:
  "Parse_loop L pre evs w = (Return None, evs1, w1) \<Longrightarrow>
   Parse_loop L (pre @ rest) evs w = Parse_loop L rest evs1 w1"
proof (induction pre arbitrary: evs w)
  case Nil
  then show ?case by simp
next
  case (Cons e pre)
  obtain r evs' w' where p: "parseOne L e evs w = (r, evs', w')"
    by (cases "parseOne L e evs w") auto
  show ?case
  proof (cases r)
    case None
    with p Cons.prems have "Parse_loop L pre evs' w' = (Return None, evs1, w1)" by simp
    from Cons.IH [OF this] p None show ?thesis by simp
  next
    case (Some err)
    with p Cons.prems have "Parse_loop L pre evs' w' = (Return None, evs1, w1)"
      by (simp split: if_splits)
    from Cons.IH [OF this] p Some Cons.prems show ?thesis
      by (simp split: if_splits)
  qed
qed

lemma Parse_loop_errorHandling:
  "Parse_loop L es evs w = (r, evs', w') \<Longrightarrow> errorHandling evs' = errorHandling evs"
proof (induction es arbitrary: evs w)
  case Nil
  then show ?case by simp
next
  case (Cons e es)
  obtain r1 evs1 w1 where p: "parseOne L e evs w = (r1, evs1, w1)"
    by (cases "parseOne L e evs w") auto
  have eh: "errorHandling evs1 = errorHandling evs"
    using parseOne_fields(2) [OF p] .
  show ?case
  proof (cases r1)
    case None
    with p Cons.prems have "Parse_loop L es evs1 w1 = (r, evs', w')" by simp
    from Cons.IH [OF this] eh show ?thesis by simp
  next
    case (Some err)
    show ?thesis
    proof (cases "errorHandling evs1 \<in> {ContinueOnError, ExitOnError, PanicOnError}")
      case True
      with p Some Cons.prems have "evs' = evs1" by (auto split: if_splits)
      with eh show ?thesis by simp
    next
      case False
      with p Some Cons.prems have "Parse_loop L es evs1 w1 = (r, evs', w')" by simp
      from Cons.IH [OF this] eh show ?thesis by simp
    qed
  qed
qed

lemma Parse_loop_Continue_returns:
  "errorHandling evs = ContinueOnError \<Longrightarrow> \<exists>r. fst (Parse_loop L es evs w) = Return r"
proof (induction es arbitrary: evs w)
  case Nil
  then show ?case by simp
next
  case (Cons e es)
  obtain r1 evs1 w1 where p: "parseOne L e evs w = (r1, evs1, w1)"
    by (cases "parseOne L e evs w") auto
  have eh: "errorHandling evs1 = ContinueOnError"
    using parseOne_fields(2) [OF p] Cons.prems by simp
  show ?case
    using p eh Cons.IH [OF eh, of w1] by (cases r1) auto
qed

lemma Parse_loop_Continue_failure:
  "errorHandling evs = ContinueOnError \<Longrightarrow> Parse_loop L es evs w = (Return (Some e), evs', w') \<Longrightarrow>
   \<exists>pre x post evs1 w1. es = pre @ x # post \<and> Parse_loop L pre evs w = (Return None, evs1, w1)
      \<and> parseOne L x evs1 w1 = (Some e, evs', w')"
proof (induction es arbitrary: evs w)
  case Nil
  then show ?case by simp
next
  case (Cons a es)
  obtain r1 evs1 w1 where p: "parseOne L a evs w = (r1, evs1, w1)"
    by (cases "parseOne L a evs w") auto
  have eh: "errorHandling evs1 = ContinueOnError"
    using parseOne_fields(2) [OF p] Cons.prems by simp
  show ?case
  proof (cases r1)
    case None
    with p Cons.prems have "Parse_loop L es evs1 w1 = (Return (Some e), evs', w')" by simp
    from Cons.IH [OF eh this] obtain pre x post evs2 w2 where
      h: "es = pre @ x # post" "Parse_loop L pre evs1 w1 = (Return None, evs2, w2)"
         "parseOne L x evs2 w2 = (Some e, evs', w')"
      by blast
    have "Parse_loop L (a # pre) evs w = (Return None, evs2, w2)"
      using p None h(2) by simp
    with h(1,3) have "a # es = (a # pre) @ x # post \<and> Parse_loop L (a # pre) evs w = (Return None, evs2, w2)
        \<and> parseOne L x evs2 w2 = (Some e, evs', w')" by simp
    then show ?thesis by blast
  next
    case (Some err)
    with p Cons.prems eh have "err = e" "evs1 = evs'" "w1 = w'" by simp_all
    with p Some have "a # es = [] @ a # es \<and> Parse_loop L [] evs w = (Return None, evs, w)
        \<and> parseOne L a evs w = (Some e, evs', w')" by simp
    then show ?thesis by blast
  qed
qed

text \<open>
  C2. Under \<^verbatim>\<open>ContinueOnError\<close>, \<^verbatim>\<open>Parse\<close> takes the entries in their order. It always
  returns. When the entries \<open>pre\<close> are applied without error and the next entry \<open>x\<close>
  fails, the result is the error of \<open>x\<close> and the state is the one \<open>x\<close> left after
  \<open>pre\<close>, whatever entries \<open>post\<close> follow: they are not touched. When every entry is
  applied or ignored without error the result is success, and an error returned is the
  error of the first failing entry.
\<close>

theorem Parse_ContinueOnError:
  assumes "errorHandling evs = ContinueOnError"
  shows "Parse L [] evs w = (Return None, evs\<lparr>parsed := True\<rparr>, w)
    \<and> (Parse L pre evs w = (Return None, evs1, w1) \<and> parseOne L x evs1 w1 = (None, evs2, w2)
           \<longrightarrow> Parse L (pre @ [x]) evs w = (Return None, evs2, w2))
    \<and> (Parse L pre evs w = (Return None, evs1, w1) \<and> parseOne L x evs1 w1 = (Some e, evs2, w2)
           \<longrightarrow> Parse L (pre @ x # post) evs w = (Return (Some e), evs2, w2))
    \<and> (\<exists>r. fst (Parse L es evs w) = Return r)
    \<and> (Parse L es evs w = (Return (Some e), evs', w')
           \<longrightarrow> (\<exists>pre x post evs1 w1. es = pre @ x # post
                  \<and> Parse L pre evs w = (Return None, evs1, w1)
                  \<and> parseOne L x evs1 w1 = (Some e, evs', w')))"
proof -
  have eh: "errorHandling (evs\<lparr>parsed := True\<rparr>) = ContinueOnError"
    using assms by simp
  have c1: "Parse L [] evs w = (Return None, evs\<lparr>parsed := True\<rparr>, w)"
    by (simp add: Parse_def)
  have c2: "Parse L pre evs w = (Return None, evs1, w1) \<and> parseOne L x evs1 w1 = (None, evs2, w2)
           \<longrightarrow> Parse L (pre @ [x]) evs w = (Return None, evs2, w2)"
    by (auto simp add: Parse_def Parse_loop_append)
  have c3: "Parse L pre evs w = (Return None, evs1, w1) \<and> parseOne L x evs1 w1 = (Some e, evs2, w2)
           \<longrightarrow> Parse L (pre @ x # post) evs w = (Return (Some e), evs2, w2)"
  proof
    assume h: "Parse L pre evs w = (Return None, evs1, w1) \<and> parseOne L x evs1 w1 = (Some e, evs2, w2)"
    then have l: "Parse_loop L pre (evs\<lparr>parsed := True\<rparr>) w = (Return None, evs1, w1)"
      by (simp add: Parse_def)
    have "errorHandling evs1 = ContinueOnError"
      using Parse_loop_errorHandling [OF l] eh by simp
    then have "errorHandling evs2 = ContinueOnError"
      using parseOne_fields(2) [of L x evs1 w1 "Some e" evs2 w2] h by simp
    then show "Parse L (pre @ x # post) evs w = (Return (Some e), evs2, w2)"
      using h by (simp add: Parse_def Parse_loop_append [OF l])
  qed
  have c4: "\<exists>r. fst (Parse L es evs w) = Return r"
    using Parse_loop_Continue_returns [OF eh] by (simp add: Parse_def)
  have c5: "Parse L es evs w = (Return (Some e), evs', w')
           \<longrightarrow> (\<exists>pre x post evs1 w1. es = pre @ x # post
                  \<and> Parse L pre evs w = (Return None, evs1, w1)
                  \<and> parseOne L x evs1 w1 = (Some e, evs', w'))"
    using Parse_loop_Continue_failure [OF eh, of L es w e evs' w'] by (simp add: Parse_def)
  from c1 c2 c3 c4 c5 show ?thesis by blast
qed

subsection \<open>The example of the specification\<close>

lemma abc_set_eq:
  "abc_set = \<lparr>name = ''test'', parsed = False, actual = Map.empty,
      formal = [''C'' \<mapsto> \<lparr>Name = ''C'', Value = intValue 2\<rparr>,
                ''A'' \<mapsto> \<lparr>Name = ''A'', Value = intValue 0\<rparr>,
                ''B'' \<mapsto> \<lparr>Name = ''B'', Value = intValue 1\<rparr>],
      errorHandling = ContinueOnError, outputW = None\<rparr>"
  by (simp add: abc_set_def Var_def NewEnvVarSet_def exited_def)

lemmas ParseInt_eval = ParseInt_def ParseUint_raw_def ParseUint_digits_def digit_of_def
  maxUint64_def to_int_def word_le_def word_less_def

theorem Parse_ContinueOnError_witness:
  "errorHandling abc_set = ContinueOnError
   \<and> fst (Parse (example_lib 64) [''A=1'', ''B=bad'', ''C=3''] abc_set sevens)
       = Return (Some (InvalidValue ''bad'' ''B'' (NumError ''ParseInt'' ''bad'' ErrSyntax)))
   \<and> ints (snd (snd (Parse (example_lib 64) [''A=1'', ''B=bad'', ''C=3''] abc_set sevens))) 0 = 1
   \<and> ints (snd (snd (Parse (example_lib 64) [''A=1'', ''B=bad'', ''C=3''] abc_set sevens))) 2 = 7
   \<and> actual (fst (snd (Parse (example_lib 64) [''A=1'', ''B=bad'', ''C=3''] abc_set sevens))) ''A''
       = Some \<lparr>Name = ''A'', Value = intValue 0\<rparr>
   \<and> actual (fst (snd (Parse (example_lib 64) [''A=1'', ''B=bad'', ''C=3''] abc_set sevens))) ''C'' = None"
proof -
  let ?L = "example_lib 64"
  let ?evs1 = "abc_set\<lparr>parsed := True, actual := [''A'' \<mapsto> \<lparr>Name = ''A'', Value = intValue 0\<rparr>]\<rparr>"
  let ?w1 = "sevens\<lparr>ints := (ints sevens)(0 := 1)\<rparr>"
  let ?e = "InvalidValue ''bad'' ''B'' (NumError ''ParseInt'' ''bad'' ErrSyntax)"
  let ?w2 = "?w1\<lparr>ints := (ints ?w1)(1 := 0), written := [(Stderr, ErrorText ?e)]\<rparr>"
  have eh: "errorHandling abc_set = ContinueOnError"
    by (simp add: abc_set_eq)
  have p1: "Parse ?L [''A=1''] abc_set sevens = (Return None, ?evs1, ?w1)"
    by (simp add: Parse_def parseOne_def parseOne_loop.simps abc_set_eq intValue_Set_def
        ParseInt_eval example_lib_def sevens_def zero_world_def)
  have p2: "parseOne ?L ''B=bad'' ?evs1 ?w1 = (Some ?e, ?evs1, ?w2)"
    by (simp add: parseOne_def parseOne_loop.simps abc_set_eq intValue_Set_def
        ParseInt_eval example_lib_def sevens_def zero_world_def failf_def Fprintln_def out_def)
  have "Parse ?L ([''A=1''] @ ''B=bad'' # [''C=3'']) abc_set sevens = (Return (Some ?e), ?evs1, ?w2)"
    using Parse_ContinueOnError [OF eh, where L = ?L and pre = "[''A=1'']" and w = sevens
        and ?evs1.0 = ?evs1 and ?w1.0 = ?w1 and x = "''B=bad''" and ?evs2.0 = ?evs1 and ?w2.0 = ?w2
        and e = ?e and post = "[''C=3'']"]
      p1 p2 by blast
  then have "Parse ?L [''A=1'', ''B=bad'', ''C=3''] abc_set sevens = (Return (Some ?e), ?evs1, ?w2)"
    by simp
  then show ?thesis
    using eh by (simp add: sevens_def)
qed

section \<open>The two maps of a set\<close>

lemma map_le_upd_known:
  "m \<subseteq>\<^sub>m f \<Longrightarrow> f k = Some r \<Longrightarrow> m(k \<mapsto> r) \<subseteq>\<^sub>m f"
  unfolding map_le_def by (metis domI domIff fun_upd_apply)

lemma Var_maps:
  assumes "Var v nm evs w = (r, evs', w')"
  shows "actual evs' = actual evs" and "formal evs \<subseteq>\<^sub>m formal evs'"
    and "formal evs' = formal evs \<or> (formal evs nm = None \<and> formal evs' = (formal evs)(nm \<mapsto> \<lparr>Name = nm, Value = v\<rparr>))"
  using assms
  by (auto simp add: Var_def Let_def map_le_def split: if_splits)

lemma Set_maps:
  assumes "Set L nm val evs w = (r, evs', w')"
  shows "formal evs' = formal evs"
    and "actual evs \<subseteq>\<^sub>m formal evs \<Longrightarrow> actual evs' \<subseteq>\<^sub>m formal evs'"
    and "dom (actual evs') = dom (actual evs) \<union> text_applied L nm val evs w"
    and "\<exists>res. r = Return res"
  using assms
  by (auto simp add: Set_def text_applied_def map_le_upd_known split: option.splits prod.splits if_splits)

lemma parseOne_maps:
  assumes "parseOne L e evs w = (r, evs', w')"
  shows "actual evs \<subseteq>\<^sub>m formal evs \<Longrightarrow> actual evs' \<subseteq>\<^sub>m formal evs'"
    and "dom (actual evs') = dom (actual evs) \<union> entry_applied L e evs w"
  using assms
  by (auto simp add: parseOne_def entry_applied_def text_applied_def failf_def map_le_upd_known
      split: option.splits prod.splits if_splits)

lemma Parse_loop_maps:
  "Parse_loop L es evs w = (r, evs', w') \<Longrightarrow>
   formal evs' = formal evs
   \<and> (actual evs \<subseteq>\<^sub>m formal evs \<longrightarrow> actual evs' \<subseteq>\<^sub>m formal evs')
   \<and> dom (actual evs') = dom (actual evs) \<union> parse_applied L es evs w"
proof (induction es arbitrary: evs w)
  case Nil
  then show ?case by simp
next
  case (Cons e es)
  obtain r1 evs1 w1 where p: "parseOne L e evs w = (r1, evs1, w1)"
    by (cases "parseOne L e evs w") auto
  note f = parseOne_fields(1) [OF p] and m = parseOne_maps [OF p]
  show ?case
  proof (cases "r1 \<noteq> None \<and> errorHandling evs1 \<in> {ContinueOnError, ExitOnError, PanicOnError}")
    case True
    with p Cons.prems have "evs' = evs1" by (auto split: if_splits)
    with f m True p show ?thesis by simp
  next
    case False
    with p Cons.prems have "Parse_loop L es evs1 w1 = (r, evs', w')"
      by (cases r1) auto
    from Cons.IH [OF this] f m False p show ?thesis
      by auto
  qed
qed

lemma parseOne_parsed:
  "parseOne L e (evs\<lparr>parsed := b\<rparr>) w =
     (case parseOne L e evs w of (r, evs', w') \<Rightarrow> (r, evs'\<lparr>parsed := b\<rparr>, w'))"
  by (simp add: parseOne_def failf_def out_def Fprintln_def split: prod.splits option.splits)

lemma entry_applied_parsed:
  "entry_applied L e (evs\<lparr>parsed := b\<rparr>) w = entry_applied L e evs w"
  by (simp add: entry_applied_def text_applied_def split: prod.splits)

lemma parse_applied_parsed:
  "parse_applied L es (evs\<lparr>parsed := b\<rparr>) w = parse_applied L es evs w"
proof (induction es arbitrary: evs w)
  case Nil
  then show ?case by simp
next
  case (Cons e es)
  obtain r1 evs1 w1 where p: "parseOne L e evs w = (r1, evs1, w1)"
    by (cases "parseOne L e evs w") auto
  show ?case
    using Cons.IH [of evs1 w1] p
    by (simp add: parseOne_parsed entry_applied_parsed)
qed

lemma Parse_maps:
  assumes "Parse L es evs w = (r, evs', w')"
  shows "formal evs' = formal evs"
    and "actual evs \<subseteq>\<^sub>m formal evs \<Longrightarrow> actual evs' \<subseteq>\<^sub>m formal evs'"
    and "dom (actual evs') = dom (actual evs) \<union> parse_applied L es evs w"
  using Parse_loop_maps [of L es "evs\<lparr>parsed := True\<rparr>" w r evs' w'] assms
  by (auto simp add: Parse_def parse_applied_parsed)

lemma exec_op_maps:
  assumes "exec_op L x evs w = (stop, evs', w')"
  shows "formal evs \<subseteq>\<^sub>m formal evs'"
    and "actual evs \<subseteq>\<^sub>m formal evs \<Longrightarrow> actual evs' \<subseteq>\<^sub>m formal evs'"
    and "dom (actual evs') = dom (actual evs) \<union> op_applied L x evs w"
proof -
  show "formal evs \<subseteq>\<^sub>m formal evs'"
  proof (cases x)
    case (OpVar v nm)
    with assms Var_maps(2) [of v nm evs w] show ?thesis by (auto split: prod.splits)
  next
    case (OpSet nm val)
    with assms Set_maps(1) [of L nm val evs w] show ?thesis by (auto split: prod.splits)
  next
    case (OpParse es)
    with assms Parse_maps(1) [of L es evs w] show ?thesis by (auto split: prod.splits)
  qed
  show "actual evs' \<subseteq>\<^sub>m formal evs'" if inv: "actual evs \<subseteq>\<^sub>m formal evs"
  proof (cases x)
    case (OpVar v nm)
    with assms Var_maps(1,2) [of v nm evs w] inv show ?thesis
      by (auto split: prod.splits intro: map_le_trans)
  next
    case (OpSet nm val)
    with assms Set_maps(2) [of L nm val evs w] inv show ?thesis by (auto split: prod.splits)
  next
    case (OpParse es)
    with assms Parse_maps(2) [of L es evs w] inv show ?thesis by (auto split: prod.splits)
  qed
  show "dom (actual evs') = dom (actual evs) \<union> op_applied L x evs w"
  proof (cases x)
    case (OpVar v nm)
    with assms Var_maps(1) [of v nm evs w] show ?thesis by (auto split: prod.splits)
  next
    case (OpSet nm val)
    with assms Set_maps(3) [of L nm val evs w] show ?thesis by (auto split: prod.splits)
  next
    case (OpParse es)
    with assms Parse_maps(3) [of L es evs w] show ?thesis by (auto split: prod.splits)
  qed
qed

lemma run_maps:
  "run L ops evs w = (evs', w') \<Longrightarrow>
   formal evs \<subseteq>\<^sub>m formal evs'
   \<and> (actual evs \<subseteq>\<^sub>m formal evs \<longrightarrow> actual evs' \<subseteq>\<^sub>m formal evs')
   \<and> dom (actual evs') = dom (actual evs) \<union> applied L ops evs w"
proof (induction ops arbitrary: evs w)
  case Nil
  then show ?case by simp
next
  case (Cons x xs)
  obtain stop evs1 w1 where e: "exec_op L x evs w = (stop, evs1, w1)"
    by (cases "exec_op L x evs w") auto
  note m = exec_op_maps [OF e]
  show ?case
  proof (cases stop)
    case True
    with e Cons.prems have "evs' = evs1" by simp
    with m e True show ?thesis by simp
  next
    case False
    with e Cons.prems have "run L xs evs1 w1 = (evs', w')" by simp
    from Cons.IH [OF this] m e False show ?thesis
      by (auto intro: map_le_trans)
  qed
qed

text \<open>
  C3. After any sequence of \<^verbatim>\<open>Var\<close>, \<^verbatim>\<open>Set\<close> and \<^verbatim>\<open>Parse\<close> operations on a set whose
  \<open>actual\<close> map started within its \<open>formal\<close> map (a new set has both empty), every name
  in \<open>actual\<close> is in \<open>formal\<close> with the same record, and the names in \<open>actual\<close> are
  those it started with and exactly those for which a \<^verbatim>\<open>Parse\<close> entry or a direct
  \<^verbatim>\<open>Set\<close> applied a value successfully: a failed conversion adds none.
\<close>

theorem actual_within_formal:
  "(actual evs \<subseteq>\<^sub>m formal evs \<and> run L ops evs w = (evs', w') \<longrightarrow>
      actual evs' \<subseteq>\<^sub>m formal evs'
      \<and> dom (actual evs') = dom (actual evs) \<union> applied L ops evs w)
   \<and> (run L ops (NewEnvVarSet nm eh) w = (evs'', w'') \<longrightarrow>
      dom (actual evs'') \<subseteq> dom (formal evs'')
      \<and> (\<forall>n \<in> dom (actual evs''). actual evs'' n = formal evs'' n)
      \<and> (\<forall>n. n \<in> dom (actual evs'') \<longleftrightarrow> n \<in> applied L ops (NewEnvVarSet nm eh) w))"
proof (intro conjI impI)
  assume h: "actual evs \<subseteq>\<^sub>m formal evs \<and> run L ops evs w = (evs', w')"
  then show "actual evs' \<subseteq>\<^sub>m formal evs'"
    and "dom (actual evs') = dom (actual evs) \<union> applied L ops evs w"
    using run_maps [of L ops evs w evs' w'] by simp_all
next
  assume h: "run L ops (NewEnvVarSet nm eh) w = (evs'', w'')"
  have i: "actual (NewEnvVarSet nm eh :: 'a EnvVarSet) \<subseteq>\<^sub>m formal (NewEnvVarSet nm eh)"
    by (simp add: NewEnvVarSet_def)
  have le: "actual evs'' \<subseteq>\<^sub>m formal evs''"
    and d: "dom (actual evs'') = applied L ops (NewEnvVarSet nm eh) w"
    using run_maps [OF h] i by (simp_all add: NewEnvVarSet_def)
  show "dom (actual evs'') \<subseteq> dom (formal evs'')"
    using le by (rule map_le_implies_dom_le)
  show "\<forall>n \<in> dom (actual evs''). actual evs'' n = formal evs'' n"
    using le by (simp add: map_le_def)
  show "\<forall>n. n \<in> dom (actual evs'') \<longleftrightarrow> n \<in> applied L ops (NewEnvVarSet nm eh) w"
    using d by simp
qed

theorem actual_within_formal_witness:
  "dom (actual (fst (run (example_lib 64)
       [OpVar (boolValue 0) ''B'', OpSet ''B'' ''maybe'', OpParse [''B=T'', ''X=2''], OpSet ''X'' ''1'']
       (NewEnvVarSet ''t'' ContinueOnError) zero_world))) = {''B''}
   \<and> actual (fst (run (example_lib 64)
       [OpVar (boolValue 0) ''B'', OpSet ''B'' ''maybe'', OpParse [''B=T'', ''X=2''], OpSet ''X'' ''1'']
       (NewEnvVarSet ''t'' ContinueOnError) zero_world)) ''B''
     = formal (fst (run (example_lib 64)
       [OpVar (boolValue 0) ''B'', OpSet ''B'' ''maybe'', OpParse [''B=T'', ''X=2''], OpSet ''X'' ''1'']
       (NewEnvVarSet ''t'' ContinueOnError) zero_world)) ''B''"
proof -
  let ?L = "example_lib 64"
  let ?ops = "[OpVar (boolValue 0) ''B'', OpSet ''B'' ''maybe'', OpParse [''B=T'', ''X=2''],
        OpSet ''X'' ''1''] :: unit op list"
  let ?new = "NewEnvVarSet ''t'' ContinueOnError :: unit EnvVarSet"
  define evs where "evs = fst (run ?L ?ops ?new zero_world)"
  define w where "w = snd (run ?L ?ops ?new zero_world)"
  have r: "run ?L ?ops ?new zero_world = (evs, w)"
    unfolding evs_def w_def by (rule prod.collapse [symmetric])
  have a: "applied ?L ?ops ?new zero_world = {''B''}"
    by (simp add: Var_def Set_def Parse_def parseOne_def text_applied_def entry_applied_def
        parseOne_loop.simps boolValue_Set_def ParseBool_def
        NewEnvVarSet_def exited_def failf_def Fprintln_def out_def example_lib_def zero_world_def)
  have t: "run ?L ?ops ?new zero_world = (evs, w) \<longrightarrow>
      dom (actual evs) \<subseteq> dom (formal evs)
      \<and> (\<forall>n \<in> dom (actual evs). actual evs n = formal evs n)
      \<and> (\<forall>n. n \<in> dom (actual evs) \<longleftrightarrow> n \<in> applied ?L ?ops ?new zero_world)"
    using actual_within_formal [where L = ?L and ops = ?ops and nm = "''t''" and eh = ContinueOnError
        and w = zero_world and evs'' = evs and w'' = w]
    by (rule conjunct2)
  from mp [OF t r] have c: "(\<forall>n \<in> dom (actual evs). actual evs n = formal evs n)
      \<and> (\<forall>n. n \<in> dom (actual evs) \<longleftrightarrow> n \<in> applied ?L ?ops ?new zero_world)"
    by (rule conjunct2)
  have "dom (actual evs) = {''B''}" and "actual evs ''B'' = formal evs ''B''"
    using c unfolding a by auto
  then show ?thesis
    unfolding evs_def by (rule conjI)
qed

section \<open>Visiting\<close>

lemma exec_op_names:
  assumes "exec_op L x evs w = (stop, evs', w')"
    and "\<forall>k r. formal evs k = Some r \<longrightarrow> Name r = k"
  shows "\<forall>k r. formal evs' k = Some r \<longrightarrow> Name r = k"
proof (cases x)
  case (OpVar v nm)
  obtain r1 where "Var v nm evs w = (r1, evs', w')"
    using assms(1) OpVar by (auto split: prod.splits)
  from Var_maps(3) [OF this] assms(2) show ?thesis by (auto split: if_splits)
next
  case (OpSet nm val)
  obtain r1 where "Set L nm val evs w = (r1, evs', w')"
    using assms(1) OpSet by (auto split: prod.splits)
  from Set_maps(1) [OF this] assms(2) show ?thesis by simp
next
  case (OpParse es)
  obtain r1 where "Parse L es evs w = (r1, evs', w')"
    using assms(1) OpParse by (auto split: prod.splits)
  from Parse_maps(1) [OF this] assms(2) show ?thesis by simp
qed

lemma run_names:
  "run L ops evs w = (evs', w') \<Longrightarrow> \<forall>k r. formal evs k = Some r \<longrightarrow> Name r = k \<Longrightarrow>
   \<forall>k r. formal evs' k = Some r \<longrightarrow> Name r = k"
proof (induction ops arbitrary: evs w)
  case Nil
  then show ?case by simp
next
  case (Cons x xs)
  obtain stop evs1 w1 where e: "exec_op L x evs w = (stop, evs1, w1)"
    by (cases "exec_op L x evs w") auto
  note n = exec_op_names [OF e Cons.prems(2)]
  show ?case
  proof (cases stop)
    case True
    with e Cons.prems(1) have "evs' = evs1" by simp
    with n show ?thesis by simp
  next
    case False
    with e Cons.prems(1) have "run L xs evs1 w1 = (evs', w')" by simp
    from Cons.IH [OF this n] show ?thesis .
  qed
qed

lemma sortEnvVars_sorted:
  assumes names: "\<forall>k r. m k = Some r \<longrightarrow> Name r = k"
    and d: "distinct order" and s: "set order = dom m"
  shows "\<exists>rs. sortEnvVars m order = map Some rs \<and> map Name rs = sort order
          \<and> sorted_wrt (<) (map Name rs) \<and> distinct rs \<and> set rs = ran m"
proof -
  define rs where "rs = map (\<lambda>k. the (m k)) (sort order)"
  have key: "m k = Some (the (m k)) \<and> Name (the (m k)) = k" if "k \<in> set order" for k
    using that s names by auto
  have "map (\<lambda>k. Name (the (m k))) order = order"
    using key by (simp add: map_idI)
  then have "sortEnvVars m order = map m (sort order)"
    by (simp add: sortEnvVars_def)
  also have "\<dots> = map Some rs"
    unfolding rs_def using key by (simp add: comp_def)
  finally have a: "sortEnvVars m order = map Some rs" .
  have b: "map Name rs = sort order"
    unfolding rs_def using key by (auto simp add: comp_def intro: map_idI)
  have c: "sorted_wrt (<) (map Name rs)"
    unfolding b using d by (simp add: strict_sorted_iff)
  have "distinct (map Name rs)"
    unfolding b using d by simp
  then have e: "distinct rs"
    by (simp add: distinct_map)
  have f: "set rs = ran m"
  proof
    show "set rs \<subseteq> ran m"
      unfolding rs_def using key by (auto simp add: ran_def)
    show "ran m \<subseteq> set rs"
    proof
      fix r assume "r \<in> ran m"
      then obtain k where "m k = Some r" by (auto simp add: ran_def)
      then have "k \<in> set (sort order)" and "the (m k) = r" using s by auto
      then show "r \<in> set rs" unfolding rs_def by force
    qed
  qed
  from a b c e f show ?thesis by blast
qed

text \<open>
  C6. On a set reached from a new one by any operations, and whatever order the range
  loops of \<^verbatim>\<open>sortEnvVars\<close> meet the keys in, \<^verbatim>\<open>VisitAll\<close> runs the observer on the
  records of \<open>formal\<close> and \<^verbatim>\<open>Visit\<close> on the records of \<open>actual\<close>, each record once and
  never a \<^verbatim>\<open>nil\<close>, in strictly ascending order of the names as byte strings. While no
  \<^verbatim>\<open>Parse\<close> entry and no \<^verbatim>\<open>Set\<close> has applied a value, \<^verbatim>\<open>Visit\<close> does not run the
  observer at all.
\<close>

theorem Visit_in_name_order:
  assumes "run L ops (NewEnvVarSet nm eh) w0 = (evs, w)"
    and "distinct forder" and "set forder = dom (formal evs)"
    and "distinct aorder" and "set aorder = dom (actual evs)"
  shows "\<exists>fs as.
           VisitAll evs forder fn s = foldl (\<lambda>s r. fn (Some r) s) s fs
         \<and> Visit evs aorder fn s = foldl (\<lambda>s r. fn (Some r) s) s as
         \<and> distinct fs \<and> set fs = ran (formal evs) \<and> sorted_wrt (<) (map Name fs)
         \<and> distinct as \<and> set as = ran (actual evs) \<and> sorted_wrt (<) (map Name as)
         \<and> (applied L ops (NewEnvVarSet nm eh) w0 = {} \<longrightarrow> as = [] \<and> Visit evs aorder fn s = s)"
proof -
  have n0: "\<forall>k r. formal (NewEnvVarSet nm eh :: 'a EnvVarSet) k = Some r \<longrightarrow> Name r = k"
    by (simp add: NewEnvVarSet_def)
  have fn: "\<forall>k r. formal evs k = Some r \<longrightarrow> Name r = k"
    using run_names [OF assms(1) n0] .
  have le: "actual evs \<subseteq>\<^sub>m formal evs" and da: "dom (actual evs) = applied L ops (NewEnvVarSet nm eh) w0"
    using run_maps [OF assms(1)] by (simp_all add: NewEnvVarSet_def)
  have an: "\<forall>k r. actual evs k = Some r \<longrightarrow> Name r = k"
  proof (intro allI impI)
    fix k r assume "actual evs k = Some r"
    with le have "formal evs k = Some r" by (metis domI map_le_def)
    with fn show "Name r = k" by simp
  qed
  from sortEnvVars_sorted [OF fn assms(2,3)] obtain fs where
    f: "sortEnvVars (formal evs) forder = map Some fs" "sorted_wrt (<) (map Name fs)"
       "distinct fs" "set fs = ran (formal evs)"
    by blast
  from sortEnvVars_sorted [OF an assms(4,5)] obtain as where
    a: "sortEnvVars (actual evs) aorder = map Some as" "sorted_wrt (<) (map Name as)"
       "distinct as" "set as = ran (actual evs)"
    by blast
  have v1: "VisitAll evs forder fn s = foldl (\<lambda>s r. fn (Some r) s) s fs"
    by (simp add: VisitAll_def f(1) foldl_map)
  have v2: "Visit evs aorder fn s = foldl (\<lambda>s r. fn (Some r) s) s as"
    by (simp add: Visit_def a(1) foldl_map)
  have z: "applied L ops (NewEnvVarSet nm eh) w0 = {} \<longrightarrow> as = [] \<and> Visit evs aorder fn s = s"
  proof
    assume "applied L ops (NewEnvVarSet nm eh) w0 = {}"
    with da have "actual evs = Map.empty" by simp
    with a(4) have "as = []" by simp
    with v2 show "as = [] \<and> Visit evs aorder fn s = s" by simp
  qed
  from v1 v2 f a z show ?thesis by blast
qed


theorem Visit_in_name_order_witness:
  "VisitAll (fst (run (example_lib 64)
        [OpVar (boolValue 2) ''Z'', OpVar (boolValue 0) ''A'', OpSet ''Z'' ''1'']
        (NewEnvVarSet ''t'' ContinueOnError) zero_world))
      [''Z'', ''A''] note_name [] = [''A'', ''Z'']
   \<and> Visit (fst (run (example_lib 64)
        [OpVar (boolValue 2) ''Z'', OpVar (boolValue 0) ''A'', OpSet ''Z'' ''1'']
        (NewEnvVarSet ''t'' ContinueOnError) zero_world))
      [''Z''] note_name [] = [''Z'']
   \<and> (\<exists>(fs :: unit EnvVar list) (as :: unit EnvVar list).
         VisitAll (fst (run (example_lib 64)
             [OpVar (boolValue 2) ''Z'', OpVar (boolValue 0) ''A'', OpSet ''Z'' ''1'']
             (NewEnvVarSet ''t'' ContinueOnError) zero_world))
           [''Z'', ''A''] note_name [] = foldl (\<lambda>s r. note_name (Some r) s) [] fs
         \<and> Visit (fst (run (example_lib 64)
             [OpVar (boolValue 2) ''Z'', OpVar (boolValue 0) ''A'', OpSet ''Z'' ''1'']
             (NewEnvVarSet ''t'' ContinueOnError) zero_world))
           [''Z''] note_name [] = foldl (\<lambda>s r. note_name (Some r) s) [] as
         \<and> sorted_wrt (<) (map Name fs) \<and> sorted_wrt (<) (map Name as))"
proof -
  let ?L = "example_lib 64"
  let ?ops = "[OpVar (boolValue 2) ''Z'', OpVar (boolValue 0) ''A'', OpSet ''Z'' ''1''] :: unit op list"
  let ?new = "NewEnvVarSet ''t'' ContinueOnError :: unit EnvVarSet"
  let ?Z = "\<lparr>Name = ''Z'', Value = boolValue 2 :: unit Value\<rparr>"
  let ?A = "\<lparr>Name = ''A'', Value = boolValue 0 :: unit Value\<rparr>"
  define E :: "unit EnvVarSet" where
    "E = \<lparr>name = ''t'', parsed = False, actual = [''Z'' \<mapsto> ?Z],
      formal = [''Z'' \<mapsto> ?Z, ''A'' \<mapsto> ?A], errorHandling = ContinueOnError, outputW = None\<rparr>"
  define W where "W = zero_world\<lparr>bools := (bools zero_world)(2 := True)\<rparr>"
  have r: "run ?L ?ops ?new zero_world = (E, W)"
    by (simp add: E_def W_def Var_def Set_def boolValue_Set_def ParseBool_def NewEnvVarSet_def exited_def)
  have h: "distinct [''Z'', ''A'']" "set [''Z'', ''A''] = dom (formal E)"
    "distinct [''Z'']" "set [''Z''] = dom (actual E)"
    by (auto simp add: E_def)
  have t: "\<exists>(fs :: unit EnvVar list) (as :: unit EnvVar list). VisitAll E [''Z'', ''A''] note_name [] = foldl (\<lambda>s r. note_name (Some r) s) [] fs
         \<and> Visit E [''Z''] note_name [] = foldl (\<lambda>s r. note_name (Some r) s) [] as
         \<and> sorted_wrt (<) (map Name fs) \<and> sorted_wrt (<) (map Name as)"
    using Visit_in_name_order [OF r h, of note_name "[]"] by blast
  have v: "VisitAll E [''Z'', ''A''] note_name [] = [''A'', ''Z'']"
    "Visit E [''Z''] note_name [] = [''Z'']"
    by (simp_all add: E_def VisitAll_def Visit_def sortEnvVars_def note_name_def)
  from t v show ?thesis
    unfolding r by simp
qed

section \<open>Integers out of range\<close>

subsection \<open>The digit loop computes the number or detects the overflow\<close>

lemma digits_value_mono:
  assumes "1 \<le> base"
  shows "start \<le> digits_value base start ds"
  using assms
proof (induction ds arbitrary: start)
  case Nil
  then show ?case by (simp add: digits_value_def)
next
  case (Cons c ds)
  have "start \<le> start * base + the (digit_of c)"
    using Cons.prems by (cases base) auto
  also have "\<dots> \<le> digits_value base (start * base + the (digit_of c)) ds"
    using Cons.IH [OF Cons.prems] .
  finally show ?case by (simp add: digits_value_def)
qed

lemma digits_value_Cons:
  "digits_value base start (c # ds) = digits_value base (start * base + the (digit_of c)) ds"
  by (simp add: digits_value_def)

lemma cutoff_exact:
  fixes N base :: nat
  assumes "0 < base"
  shows "N \<ge> (2 ^ 64 - 1) div base + 1 \<longleftrightarrow> N * base \<ge> 2 ^ 64"
proof
  assume a: "(2 ^ 64 - 1) div base + 1 \<le> N"
  have "(2::nat) ^ 64 - 1 < base + base * ((2 ^ 64 - 1) div base)"
    using assms by (rule dividend_less_times_div)
  also have "\<dots> = ((2 ^ 64 - 1) div base + 1) * base"
    by (simp add: algebra_simps)
  also have "\<dots> \<le> N * base"
    using a by (rule mult_le_mono1)
  finally show "2 ^ 64 \<le> N * base" by simp
next
  assume a: "2 ^ 64 \<le> N * base"
  show "(2 ^ 64 - 1) div base + 1 \<le> N"
  proof (rule ccontr)
    assume "\<not> (2 ^ 64 - 1) div base + 1 \<le> N"
    then have "N \<le> (2 ^ 64 - 1) div base" by simp
    then have "N * base \<le> (2 ^ 64 - 1) div base * base" by (rule mult_le_mono1)
    also have "\<dots> \<le> 2 ^ 64 - 1" by (rule div_times_less_eq_dividend)
    finally show False using a by simp
  qed
qed

lemma ParseUint_loop_correct:
  fixes n cutoff maxVal :: "64 word"
  assumes b: "2 \<le> base" "base \<le> 36"
    and c: "unat cutoff = (2 ^ 64 - 1) div base + 1"
    and ds: "is_digits base ds"
    and n: "n \<le> maxVal"
  shows "ParseUint_loop base cutoff maxVal ds n =
           (if digits_value base (unat n) ds \<le> unat maxVal
            then (of_nat (digits_value base (unat n) ds), None)
            else (maxVal, Some ErrRange))"
  using ds n
proof (induction ds arbitrary: n)
  case Nil
  then show ?case by (simp add: digits_value_def word_le_nat_alt)
next
  case (Cons d ds)
  from Cons.prems(1) obtain v where v: "digit_of d = Some v" "v < base" and rest: "is_digits base ds"
    by (auto simp add: is_digits_def split: option.splits)
  let ?N = "unat n"
  let ?M = "unat maxVal"
  have M: "?M < 2 ^ 64" using unsigned_less [of maxVal] by simp
  have ub: "unat (of_nat base :: 64 word) = base"
    using b by (simp add: unat_of_nat)
  have uv: "unat (of_nat v :: 64 word) = v"
    using b v by (simp add: unat_of_nat)
  have dv: "digits_value base ?N (d # ds) = digits_value base (?N * base + v) ds"
    using v by (simp add: digits_value_Cons)
  have ge: "?N * base + v \<le> digits_value base ?N (d # ds)"
    unfolding dv using b by (intro digits_value_mono) simp
  show ?case
  proof (cases "n \<ge> cutoff")
    case True
    then have "(2 ^ 64 - 1) div base + 1 \<le> ?N"
      by (simp add: word_le_nat_alt c)
    then have "2 ^ 64 \<le> ?N * base"
      using b cutoff_exact [of base ?N] by simp
    with ge M have "\<not> digits_value base ?N (d # ds) \<le> ?M" by simp
    with True v show ?thesis by simp
  next
    case False
    then have "\<not> (2 ^ 64 - 1) div base + 1 \<le> ?N"
      by (simp add: word_le_nat_alt c)
    then have lt: "?N * base < 2 ^ 64"
      using b cutoff_exact [of base ?N] by simp
    have un': "unat (n * of_nat base) = ?N * base"
      using lt ub unat_mult_lem [of n "of_nat base"] by simp
    show ?thesis
    proof (cases "?N * base + v < 2 ^ 64")
      case True
      have un1: "unat (n * of_nat base + of_nat v) = ?N * base + v"
        using True un' uv unat_add_lem [of "n * of_nat base" "of_nat v"] by simp
      have nw: "\<not> n * of_nat base + of_nat v < n * of_nat base"
        by (simp add: word_less_nat_alt un1 un')
      show ?thesis
      proof (cases "n * of_nat base + of_nat v > maxVal")
        case True
        then have "?M < ?N * base + v"
          by (simp add: word_less_nat_alt un1)
        with ge have "\<not> digits_value base ?N (d # ds) \<le> ?M" by simp
        with True False v show ?thesis by (simp add: Let_def)
      next
        case F2: False
        then have le: "n * of_nat base + of_nat v \<le> maxVal" by simp
        from Cons.IH [OF rest le] F2 nw False v show ?thesis
          by (simp add: Let_def un1 dv)
      qed
    next
      case F1: False
      then have big: "2 ^ 64 \<le> ?N * base + v" by simp
      have "unat (n * of_nat base + of_nat v) = (?N * base + v) mod 2 ^ 64"
        by (simp add: unat_word_ariths(1) un' uv)
      also have "\<dots> = ?N * base + v - 2 ^ 64"
        using big lt v b by (simp add: mod_if)
      also have "\<dots> < ?N * base"
        using big v b by simp
      finally have w: "n * of_nat base + of_nat v < n * of_nat base"
        by (simp add: word_less_nat_alt un')
      from big ge M have "\<not> digits_value base ?N (d # ds) \<le> ?M" by simp
      with w False v show ?thesis by (simp add: Let_def)
    qed
  qed
qed

lemma unat_maxUint64: "unat maxUint64 = 2 ^ 64 - 1"
  by (simp add: maxUint64_def unsigned_minus_1_eq_mask mask_eq_exp_minus_1)

lemma unat_cutoff:
  assumes "2 \<le> base" "base \<le> 36"
  shows "unat (maxUint64 div of_nat base + 1 :: 64 word) = (2 ^ 64 - 1) div base + 1"
proof -
  have ub: "unat (of_nat base :: 64 word) = base"
    using assms by (simp add: unat_of_nat)
  have d: "unat (maxUint64 div of_nat base :: 64 word) = (2 ^ 64 - 1) div base"
    by (simp add: unat_div ub unat_maxUint64)
  have "(2 ^ 64 - 1) div base \<le> (2 ^ 64 - 1) div (2::nat)"
    using assms by (intro div_le_mono2) auto
  then have "(2 ^ 64 - 1) div base + 1 < (2::nat) ^ 64"
    by simp
  then show ?thesis
    using unat_add_lem [of "maxUint64 div of_nat base" "1 :: 64 word"] d by simp
qed

lemma unat_maxVal:
  assumes "bits = 32 \<or> bits = 64"
  shows "unat (push_bit bits 1 - 1 :: 64 word) = 2 ^ bits - 1"
  using assms by (auto simp add: unsigned_minus_1_eq_mask mask_eq_exp_minus_1)

lemma unat_maxVal_power:
  assumes "bits = 32 \<or> bits = 64"
  shows "unat (2 ^ bits - 1 :: 64 word) = 2 ^ bits - 1"
  using unat_maxVal [OF assms] by simp

lemma ParseUint_digits_correct:
  assumes "2 \<le> base" "base \<le> 36" "bits = 32 \<or> bits = 64" "is_digits base ds"
  shows "ParseUint_digits base bits ds =
           (if digits_value base 0 ds < 2 ^ bits
            then (of_nat (digits_value base 0 ds), None)
            else (push_bit bits 1 - 1, Some ErrRange))"
proof -
  have "ParseUint_loop base (maxUint64 div of_nat base + 1) (push_bit bits 1 - 1) ds 0 =
           (if digits_value base (unat (0 :: 64 word)) ds \<le> unat (push_bit bits 1 - 1 :: 64 word)
            then (of_nat (digits_value base (unat (0 :: 64 word)) ds), None)
            else (push_bit bits 1 - 1, Some ErrRange))"
    using assms(1,2) unat_cutoff [OF assms(1,2)] assms(4)
    by (rule ParseUint_loop_correct) simp
  moreover have "digits_value base 0 ds \<le> 2 ^ bits - 1 \<longleftrightarrow> digits_value base 0 ds < 2 ^ bits"
    by (simp add: Nat.le_diff_conv2 Suc_le_eq)
  ultimately show ?thesis
    by (simp add: ParseUint_digits_def unat_maxVal_power [OF assms(3)])
qed

subsection \<open>The parsers on the literals of the specification\<close>

lemma digit_of_x: "digit_of CHR ''x'' = Some 33" "digit_of CHR ''X'' = Some 33"
  "digit_of CHR ''+'' = None" "digit_of CHR ''-'' = None" "digit_of CHR ''0'' = Some 0"
  by (simp_all add: digit_of_def)

lemma uint_literal_cases:
  assumes "uint_literal s = Some m"
  obtains (hex) "3 \<le> length s" "take 2 s = ''0x'' \<or> take 2 s = ''0X''" "is_digits 16 (drop 2 s)"
      "m = digits_value 16 0 (drop 2 s)"
  | (oct) "s \<noteq> []" "hd s = CHR ''0''" "is_digits 8 (tl s)" "m = digits_value 8 0 (tl s)"
  | (dec) "s \<noteq> []" "hd s \<noteq> CHR ''0''" "is_digits 10 s" "m = digits_value 10 0 s"
  using assms unfolding uint_literal_def by (auto split: if_splits)

lemma uint_literal_hd:
  assumes "uint_literal s = Some m"
  shows "s \<noteq> []" and "hd s \<noteq> CHR ''+''" and "hd s \<noteq> CHR ''-''"
proof -
  have "s \<noteq> [] \<and> digit_of (hd s) \<noteq> None"
    using assms
  proof (cases rule: uint_literal_cases)
    case hex
    then obtain a b r where "s = a # b # r" by (cases s; cases "tl s") auto
    with hex have "hd s = CHR ''0''" by auto
    with hex show ?thesis by (auto simp add: digit_of_x)
  next
    case oct
    then show ?thesis by (simp add: digit_of_x)
  next
    case dec
    then show ?thesis
      by (cases s) (auto simp add: is_digits_def split: option.splits)
  qed
  then show "s \<noteq> []" and "hd s \<noteq> CHR ''+''" and "hd s \<noteq> CHR ''-''"
    using digit_of_x by auto
qed

lemma ParseUint_raw_literal:
  assumes lit: "uint_literal s = Some m" and bits: "bits = 32 \<or> bits = 64"
  shows "ParseUint_raw s 0 bits =
           (if m < 2 ^ bits then (of_nat m, None) else (push_bit bits 1 - 1, Some ErrRange))"
  using lit
proof (cases rule: uint_literal_cases)
  case hex
  then obtain b r where s: "s = CHR ''0'' # b # r" and b: "b = CHR ''x'' \<or> b = CHR ''X''"
    by (cases s; cases "tl s") auto
  have "ParseUint_raw s 0 bits = ParseUint_digits 16 bits (drop 2 s)"
    using hex(1) s b by (auto simp add: ParseUint_raw_def)
  also have "\<dots> = (if m < 2 ^ bits then (of_nat m, None) else (push_bit bits 1 - 1, Some ErrRange))"
    unfolding hex(4) using hex(3) bits by (intro ParseUint_digits_correct) auto
  finally show ?thesis .
next
  case oct
  from oct obtain r where s: "s = CHR ''0'' # r" by (cases s) auto
  have nx: "\<not> (1 < length s \<and> (s ! 1 = CHR ''x'' \<or> s ! 1 = CHR ''X''))"
  proof
    assume a: "1 < length s \<and> (s ! 1 = CHR ''x'' \<or> s ! 1 = CHR ''X'')"
    with s obtain c r' where r: "r = c # r'" and c: "c = CHR ''x'' \<or> c = CHR ''X''"
      by (cases r) auto
    with oct(3) s have "case digit_of c of None \<Rightarrow> False | Some v \<Rightarrow> v < 8"
      by (simp add: is_digits_def)
    with c show False using digit_of_x by auto
  qed
  have "ParseUint_raw s 0 bits = ParseUint_digits 8 bits (tl s)"
    using nx s by (auto simp add: ParseUint_raw_def)
  also have "\<dots> = (if m < 2 ^ bits then (of_nat m, None) else (push_bit bits 1 - 1, Some ErrRange))"
    unfolding oct(4) using oct(3) bits by (intro ParseUint_digits_correct) auto
  finally show ?thesis .
next
  case dec
  have "ParseUint_raw s 0 bits = ParseUint_digits 10 bits s"
    using dec(1,2) by (cases s) (auto simp add: ParseUint_raw_def)
  also have "\<dots> = (if m < 2 ^ bits then (of_nat m, None) else (push_bit bits 1 - 1, Some ErrRange))"
    unfolding dec(4) using dec(3) bits by (intro ParseUint_digits_correct) auto
  finally show ?thesis .
qed

lemma ParseUint_literal:
  assumes "uint_literal s = Some m" and "bits = 32 \<or> bits = 64"
  shows "ParseUint s 0 bits =
           (if m < 2 ^ bits then (of_nat m, None)
            else (push_bit bits 1 - 1, Some (NumError ''ParseUint'' s ErrRange)))"
  by (simp add: ParseUint_def ParseUint_raw_literal [OF assms])

lemma unat_int_cutoff:
  assumes "bits = 32 \<or> bits = 64"
  shows "unat (2 ^ (bits - 1) :: 64 word) = 2 ^ (bits - 1)"
  using assms by auto

lemma ParseInt_unfold:
  assumes "s0 \<noteq> []"
    and "ParseUint_raw (if hd s0 = CHR ''+'' \<or> hd s0 = CHR ''-'' then tl s0 else s0) 0 bits = (un, err)"
    and "err = None \<or> err = Some ErrRange"
    and "C = push_bit (bits - 1) 1"
  shows "ParseInt s0 0 bits =
           (if hd s0 \<noteq> CHR ''-'' \<and> C \<le> un then (C - 1, Some (NumError ''ParseInt'' s0 ErrRange))
            else if hd s0 = CHR ''-'' \<and> C < un then (- C, Some (NumError ''ParseInt'' s0 ErrRange))
            else (if hd s0 = CHR ''-'' then - un else un, None))"
  using assms by (auto simp add: ParseInt_def Let_def)


lemma ParseInt_literal:
  assumes lit: "int_literal s = Some v" and bits: "bits = 32 \<or> bits = 64"
  shows "ParseInt s 0 bits =
           (if v < - (2 ^ (bits - 1)) then (- (2 ^ (bits - 1)), Some (NumError ''ParseInt'' s ErrRange))
            else if 2 ^ (bits - 1) \<le> v then (2 ^ (bits - 1) - 1, Some (NumError ''ParseInt'' s ErrRange))
            else (of_int v, None))"
proof -
  define k where "k = bits - 1"
  define C :: "64 word" where "C = 2 ^ k"
  define M :: "64 word" where "M = push_bit bits 1 - 1"
  have Cp: "C = push_bit (bits - 1) 1" by (simp add: C_def k_def)
  have uC: "unat C = 2 ^ k" unfolding C_def k_def using bits by (rule unat_int_cutoff)
  have uM: "unat M = 2 ^ bits - 1" unfolding M_def using bits by (rule unat_maxVal)
  have pw: "(2::nat) ^ k < 2 ^ bits" "(2::nat) ^ bits \<le> 2 ^ 64" using bits by (auto simp add: k_def)
  have kpos: "(0::int) < 2 ^ k" by simp
  have small: "unat (of_nat m :: 64 word) = m" if "m < 2 ^ bits" for m
    using that pw by (simp add: unat_of_nat)
  have pw2: "(2::nat) ^ k < 2 ^ bits - 1" using bits by (auto simp add: k_def)
  have CM: "C < M" "C \<le> M"
    unfolding word_less_nat_alt word_le_nat_alt uC uM using pw2 by simp_all
  have goal: "ParseInt s 0 bits =
           (if v < - (2 ^ k) then (- C, Some (NumError ''ParseInt'' s ErrRange))
            else if 2 ^ k \<le> v then (C - 1, Some (NumError ''ParseInt'' s ErrRange))
            else (of_int v, None))"
  proof (cases "s \<noteq> [] \<and> hd s = CHR ''-''")
    case True
    with lit obtain m where m: "uint_literal (tl s) = Some m" and v: "v = - int m"
      by (auto simp add: int_literal_def)
    have nb: "\<not> 2 ^ k \<le> v" using kpos v by linarith
    have vlt: "v < - (2 ^ k) \<longleftrightarrow> 2 ^ k < m"
    proof -
      have "v < - (2 ^ k) \<longleftrightarrow> (2::int) ^ k < int m" unfolding v by linarith
      also have "\<dots> \<longleftrightarrow> int (2 ^ k) < int m" by simp
      also have "\<dots> \<longleftrightarrow> 2 ^ k < m" by (rule of_nat_less_iff)
      finally show ?thesis .
    qed
    show ?thesis
    proof (cases "m < 2 ^ bits")
      case lt: True
      have raw: "ParseUint_raw (if hd s = CHR ''+'' \<or> hd s = CHR ''-'' then tl s else s) 0 bits = (of_nat m, None)"
        using ParseUint_raw_literal [OF m bits] lt True by simp
      have cmp: "C < (of_nat m :: 64 word) \<longleftrightarrow> 2 ^ k < m"
        by (simp only: word_less_nat_alt uC small [OF lt])
      have "ParseInt s 0 bits =
              (if C < of_nat m then (- C, Some (NumError ''ParseInt'' s ErrRange)) else (- of_nat m, None))"
        using ParseInt_unfold [OF _ raw _ Cp] True by simp
      then show ?thesis
        unfolding cmp using vlt nb v by simp
    next
      case ge: False
      have raw: "ParseUint_raw (if hd s = CHR ''+'' \<or> hd s = CHR ''-'' then tl s else s) 0 bits = (M, Some ErrRange)"
        using ParseUint_raw_literal [OF m bits] ge True by (simp add: M_def)
      have "ParseInt s 0 bits = (- C, Some (NumError ''ParseInt'' s ErrRange))"
        using ParseInt_unfold [OF _ raw _ Cp] True CM by simp
      moreover have "2 ^ k < m" using ge pw(1) by linarith
      ultimately show ?thesis
        using vlt by simp
    qed
  next
    case False
    with lit obtain m where m: "uint_literal s = Some m" and v: "v = int m"
      by (auto simp add: int_literal_def)
    note hd = uint_literal_hd [OF m]
    have nneg: "\<not> v < - (2 ^ k)" using kpos v by linarith
    have vge: "2 ^ k \<le> v \<longleftrightarrow> 2 ^ k \<le> m"
    proof -
      have "2 ^ k \<le> v \<longleftrightarrow> int (2 ^ k) \<le> int m" unfolding v by simp
      also have "\<dots> \<longleftrightarrow> 2 ^ k \<le> m" by (rule of_nat_le_iff)
      finally show ?thesis .
    qed
    show ?thesis
    proof (cases "m < 2 ^ bits")
      case lt: True
      have raw: "ParseUint_raw (if hd s = CHR ''+'' \<or> hd s = CHR ''-'' then tl s else s) 0 bits = (of_nat m, None)"
        using ParseUint_raw_literal [OF m bits] lt hd by simp
      have cmp: "C \<le> (of_nat m :: 64 word) \<longleftrightarrow> 2 ^ k \<le> m"
        by (simp only: word_le_nat_alt uC small [OF lt])
      have "ParseInt s 0 bits =
              (if C \<le> of_nat m then (C - 1, Some (NumError ''ParseInt'' s ErrRange)) else (of_nat m, None))"
        using ParseInt_unfold [OF _ raw _ Cp] hd by simp
      then show ?thesis
        unfolding cmp using vge nneg v by simp
    next
      case ge: False
      have raw: "ParseUint_raw (if hd s = CHR ''+'' \<or> hd s = CHR ''-'' then tl s else s) 0 bits = (M, Some ErrRange)"
        using ParseUint_raw_literal [OF m bits] ge hd by (simp add: M_def)
      have "ParseInt s 0 bits = (C - 1, Some (NumError ''ParseInt'' s ErrRange))"
        using ParseInt_unfold [OF _ raw _ Cp] hd CM by simp
      moreover have "2 ^ k \<le> m" using ge pw(1) by linarith
      ultimately show ?thesis
        using vge nneg by simp
    qed
  qed
  then show ?thesis
    unfolding C_def k_def .
qed

subsection \<open>The integer kinds on the literals\<close>

lemma to_int_of_int:
  assumes "bits = 32 \<or> bits = 64" and "- (2 ^ (bits - 1)) \<le> v" and "v < 2 ^ (bits - 1)"
  shows "to_int bits (of_int v :: 64 word) = v"
proof -
  have r: "- (2 ^ 63) \<le> v" "v < 2 ^ 63"
    using assms by auto
  have "sint (of_int v :: 64 word) = v"
    using r by (simp add: sint_sbintrunc' signed_take_bit_int_eq_self)
  moreover have "signed_take_bit (bits - 1) v = v"
    using assms(2,3) by (simp add: signed_take_bit_int_eq_self)
  ultimately show ?thesis
    by (simp add: to_int_def)
qed

lemma to_uint_of_nat:
  assumes "bits = 32 \<or> bits = 64" and "m < 2 ^ bits"
  shows "to_uint bits (of_nat m :: 64 word) = m"
proof -
  have "m < 2 ^ 64" using assms by auto
  then have "unat (of_nat m :: 64 word) = m" by (simp add: unat_of_nat)
  then show ?thesis using assms(2) by (simp add: to_uint_def take_bit_nat_eq_self)
qed

lemma intValue_Set_literal:
  assumes bits: "IntSize L = 32 \<or> IntSize L = 64" and lit: "int_literal s = Some v"
  shows "intValue_Set L p s w =
     (if v < - (2 ^ (IntSize L - 1))
      then (Some (NumError ''ParseInt'' s ErrRange), w\<lparr>ints := (ints w)(p := - (2 ^ (IntSize L - 1)))\<rparr>)
      else if 2 ^ (IntSize L - 1) \<le> v
      then (Some (NumError ''ParseInt'' s ErrRange), w\<lparr>ints := (ints w)(p := 2 ^ (IntSize L - 1) - 1)\<rparr>)
      else (None, w\<lparr>ints := (ints w)(p := v)\<rparr>))"
proof -
  define k where "k = IntSize L - 1"
  have lo: "to_int (IntSize L) (- (2 ^ k) :: 64 word) = - (2 ^ k)"
    using to_int_of_int [OF bits, of "- (2 ^ k)"] by (simp add: k_def)
  have hi: "to_int (IntSize L) (2 ^ k - 1 :: 64 word) = 2 ^ k - 1"
    using to_int_of_int [OF bits, of "2 ^ k - 1"] by (simp add: k_def)
  have mid: "to_int (IntSize L) (of_int v :: 64 word) = v" if "\<not> v < - (2 ^ k)" "\<not> 2 ^ k \<le> v"
    using to_int_of_int [OF bits, of v] that by (simp add: k_def)
  have "ParseInt s 0 (IntSize L) =
           (if v < - (2 ^ k) then (- (2 ^ k), Some (NumError ''ParseInt'' s ErrRange))
            else if 2 ^ k \<le> v then (2 ^ k - 1, Some (NumError ''ParseInt'' s ErrRange))
            else (of_int v, None))"
    unfolding k_def using lit bits by (rule ParseInt_literal)
  then have "intValue_Set L p s w =
     (if v < - (2 ^ k)
      then (Some (NumError ''ParseInt'' s ErrRange), w\<lparr>ints := (ints w)(p := - (2 ^ k))\<rparr>)
      else if 2 ^ k \<le> v
      then (Some (NumError ''ParseInt'' s ErrRange), w\<lparr>ints := (ints w)(p := 2 ^ k - 1)\<rparr>)
      else (None, w\<lparr>ints := (ints w)(p := v)\<rparr>))"
    using lo hi mid by (simp add: intValue_Set_def)
  then show ?thesis unfolding k_def .
qed

lemma int64Value_Set_literal:
  assumes lit: "int_literal s = Some v"
  shows "int64Value_Set p s w =
     (if v < - (2 ^ 63)
      then (Some (NumError ''ParseInt'' s ErrRange), w\<lparr>int64s := (int64s w)(p := - (2 ^ 63))\<rparr>)
      else if 2 ^ 63 \<le> v
      then (Some (NumError ''ParseInt'' s ErrRange), w\<lparr>int64s := (int64s w)(p := 2 ^ 63 - 1)\<rparr>)
      else (None, w\<lparr>int64s := (int64s w)(p := of_int v)\<rparr>))"
proof -
  have "ParseInt s 0 64 =
           (if v < - (2 ^ (64 - 1)) then (- (2 ^ (64 - 1)), Some (NumError ''ParseInt'' s ErrRange))
            else if 2 ^ (64 - 1) \<le> v then (2 ^ (64 - 1) - 1, Some (NumError ''ParseInt'' s ErrRange))
            else (of_int v, None))"
    using lit by (rule ParseInt_literal) simp
  then show ?thesis
    by (simp add: int64Value_Set_def)
qed

lemma uintValue_Set_literal:
  assumes bits: "IntSize L = 32 \<or> IntSize L = 64" and lit: "uint_literal s = Some m"
  shows "uintValue_Set L p s w =
     (if m < 2 ^ IntSize L then (None, w\<lparr>uints := (uints w)(p := m)\<rparr>)
      else (Some (NumError ''ParseUint'' s ErrRange), w\<lparr>uints := (uints w)(p := 2 ^ IntSize L - 1)\<rparr>))"
proof -
  have hi: "to_uint (IntSize L) (push_bit (IntSize L) 1 - 1 :: 64 word) = 2 ^ IntSize L - 1"
    using bits by (auto simp add: to_uint_def unat_maxVal_power take_bit_nat_eq_self)
  show ?thesis
    using ParseUint_literal [OF lit bits] hi to_uint_of_nat [OF bits, of m]
    by (simp add: uintValue_Set_def del: push_bit_Suc push_bit_of_1 push_bit_eq_mult)
qed

lemma uint64Value_Set_literal:
  assumes lit: "uint_literal s = Some m"
  shows "uint64Value_Set p s w =
     (if m < 2 ^ 64 then (None, w\<lparr>uint64s := (uint64s w)(p := of_nat m)\<rparr>)
      else (Some (NumError ''ParseUint'' s ErrRange), w\<lparr>uint64s := (uint64s w)(p := - 1)\<rparr>))"
proof -
  have "ParseUint s 0 64 =
           (if m < 2 ^ 64 then (of_nat m, None)
            else (push_bit 64 1 - 1, Some (NumError ''ParseUint'' s ErrRange)))"
    using lit by (rule ParseUint_literal) simp
  moreover have "(push_bit 64 1 - 1 :: 64 word) = - 1"
    by simp
  ultimately have "ParseUint s 0 64 =
           (if m < 2 ^ 64 then (of_nat m, None)
            else (- 1, Some (NumError ''ParseUint'' s ErrRange)))"
    by (simp only:)
  then show ?thesis
    by (simp add: uint64Value_Set_def)
qed

subsection \<open>Examples of literals\<close>

lemma lit_a: "int_literal ''2147483648'' = Some 2147483648"
  by (simp add: int_literal_def uint_literal_def is_digits_def digit_of_def digits_value_def)

lemma lit_b: "uint_literal ''4294967296'' = Some 4294967296"
  by (simp add: uint_literal_def is_digits_def digit_of_def digits_value_def)

lemma lit_c: "int_literal ''-0x10'' = Some (- 16)"
  by (simp add: int_literal_def uint_literal_def is_digits_def digit_of_def digits_value_def)

subsection \<open>Range errors\<close>

text \<open>
  C8. On a platform whose \<^verbatim>\<open>int\<close> is 32 or 64 bits wide, the \<^verbatim>\<open>Set\<close> method of each
  of the four integer kinds returns a range error for every numeric literal whose value
  lies outside the width of the kind, and stores the exact value of every literal inside
  it: nothing is truncated or wrapped. The literal \<^verbatim>\<open>2147483648\<close> fails for a 32-bit
  \<^verbatim>\<open>int\<close> and succeeds for \<^verbatim>\<open>int64\<close>.
\<close>

theorem integer_out_of_range_fails:
  assumes "IntSize L = 32 \<or> IntSize L = 64"
  shows "(int_literal s = Some v \<and> (v < - (2 ^ (IntSize L - 1)) \<or> 2 ^ (IntSize L - 1) \<le> v)
            \<longrightarrow> fst (intValue_Set L p s w) = Some (NumError ''ParseInt'' s ErrRange))
       \<and> (int_literal s = Some v \<and> - (2 ^ (IntSize L - 1)) \<le> v \<and> v < 2 ^ (IntSize L - 1)
            \<longrightarrow> intValue_Set L p s w = (None, w\<lparr>ints := (ints w)(p := v)\<rparr>))
       \<and> (int_literal s = Some v \<and> (v < - (2 ^ 63) \<or> 2 ^ 63 \<le> v)
            \<longrightarrow> fst (int64Value_Set p s w) = Some (NumError ''ParseInt'' s ErrRange))
       \<and> (int_literal s = Some v \<and> - (2 ^ 63) \<le> v \<and> v < 2 ^ 63
            \<longrightarrow> int64Value_Set p s w = (None, w\<lparr>int64s := (int64s w)(p := of_int v)\<rparr>))
       \<and> (uint_literal s = Some m \<and> 2 ^ IntSize L \<le> m
            \<longrightarrow> fst (uintValue_Set L p s w) = Some (NumError ''ParseUint'' s ErrRange))
       \<and> (uint_literal s = Some m \<and> m < 2 ^ IntSize L
            \<longrightarrow> uintValue_Set L p s w = (None, w\<lparr>uints := (uints w)(p := m)\<rparr>))
       \<and> (uint_literal s = Some m \<and> 2 ^ 64 \<le> m
            \<longrightarrow> fst (uint64Value_Set p s w) = Some (NumError ''ParseUint'' s ErrRange))
       \<and> (uint_literal s = Some m \<and> m < 2 ^ 64
            \<longrightarrow> uint64Value_Set p s w = (None, w\<lparr>uint64s := (uint64s w)(p := of_nat m)\<rparr>))
       \<and> (IntSize L = 32
            \<longrightarrow> fst (intValue_Set L p ''2147483648'' w) = Some (NumError ''ParseInt'' ''2147483648'' ErrRange))
       \<and> int64Value_Set p ''2147483648'' w = (None, w\<lparr>int64s := (int64s w)(p := 2147483648)\<rparr>)"
proof -
  note lit = lit_a
  have a: "int_literal s = Some v \<and> (v < - (2 ^ (IntSize L - 1)) \<or> 2 ^ (IntSize L - 1) \<le> v)
            \<longrightarrow> fst (intValue_Set L p s w) = Some (NumError ''ParseInt'' s ErrRange)"
    using intValue_Set_literal [OF assms, of s v p w] by auto
  have b: "int_literal s = Some v \<and> - (2 ^ (IntSize L - 1)) \<le> v \<and> v < 2 ^ (IntSize L - 1)
            \<longrightarrow> intValue_Set L p s w = (None, w\<lparr>ints := (ints w)(p := v)\<rparr>)"
    using intValue_Set_literal [OF assms, of s v p w] by auto
  have c: "int_literal s = Some v \<and> (v < - (2 ^ 63) \<or> 2 ^ 63 \<le> v)
            \<longrightarrow> fst (int64Value_Set p s w) = Some (NumError ''ParseInt'' s ErrRange)"
    using int64Value_Set_literal [of s v p w] by auto
  have d: "int_literal s = Some v \<and> - (2 ^ 63) \<le> v \<and> v < 2 ^ 63
            \<longrightarrow> int64Value_Set p s w = (None, w\<lparr>int64s := (int64s w)(p := of_int v)\<rparr>)"
    using int64Value_Set_literal [of s v p w] by auto
  have e: "uint_literal s = Some m \<and> 2 ^ IntSize L \<le> m
            \<longrightarrow> fst (uintValue_Set L p s w) = Some (NumError ''ParseUint'' s ErrRange)"
    using uintValue_Set_literal [OF assms, of s m p w] by auto
  have f: "uint_literal s = Some m \<and> m < 2 ^ IntSize L
            \<longrightarrow> uintValue_Set L p s w = (None, w\<lparr>uints := (uints w)(p := m)\<rparr>)"
    using uintValue_Set_literal [OF assms, of s m p w] by auto
  have g: "uint_literal s = Some m \<and> 2 ^ 64 \<le> m
            \<longrightarrow> fst (uint64Value_Set p s w) = Some (NumError ''ParseUint'' s ErrRange)"
    using uint64Value_Set_literal [of s m p w] by auto
  have h: "uint_literal s = Some m \<and> m < 2 ^ 64
            \<longrightarrow> uint64Value_Set p s w = (None, w\<lparr>uint64s := (uint64s w)(p := of_nat m)\<rparr>)"
    using uint64Value_Set_literal [of s m p w] by auto
  have i: "IntSize L = 32
            \<longrightarrow> fst (intValue_Set L p ''2147483648'' w) = Some (NumError ''ParseInt'' ''2147483648'' ErrRange)"
    using intValue_Set_literal [OF assms lit, of p w] by auto
  have j: "int64Value_Set p ''2147483648'' w = (None, w\<lparr>int64s := (int64s w)(p := 2147483648)\<rparr>)"
    using int64Value_Set_literal [OF lit, of p w] by simp
  from a b c d e f g h i j show ?thesis by blast
qed

theorem integer_out_of_range_fails_witness:
  "fst (intValue_Set (example_lib 32) 0 ''2147483648'' zero_world)
     = Some (NumError ''ParseInt'' ''2147483648'' ErrRange)
   \<and> int64Value_Set 0 ''2147483648'' zero_world
     = (None, zero_world\<lparr>int64s := (int64s zero_world)(0 := 2147483648)\<rparr>)
   \<and> fst (uintValue_Set (example_lib 32) 0 ''4294967296'' zero_world)
     = Some (NumError ''ParseUint'' ''4294967296'' ErrRange)
   \<and> intValue_Set (example_lib 64) 0 ''-0x10'' zero_world
     = (None, zero_world\<lparr>ints := (ints zero_world)(0 := - 16)\<rparr>)"
proof -
  have sz: "IntSize (example_lib 32) = 32 \<or> IntSize (example_lib 32) = 64"
    and sz': "IntSize (example_lib 64) = 32 \<or> IntSize (example_lib 64) = 64"
    and n: "IntSize (example_lib 32) = 32" and n': "IntSize (example_lib 64) = 64"
    by (simp_all add: example_lib_def)
  note t = integer_out_of_range_fails [OF sz]
  note t' = integer_out_of_range_fails [OF sz']
  have ip: "int_literal ''2147483648'' = Some 2147483648
      \<and> ((2147483648 :: int) < - (2 ^ (IntSize (example_lib 32) - 1))
           \<or> 2 ^ (IntSize (example_lib 32) - 1) \<le> (2147483648 :: int))"
    using lit_a by (simp add: n)
  have a: "fst (intValue_Set (example_lib 32) 0 ''2147483648'' zero_world)
     = Some (NumError ''ParseInt'' ''2147483648'' ErrRange)"
    using t [where s = "''2147483648''" and v = 2147483648 and p = 0 and w = zero_world,
        THEN conjunct1] ip
    by (rule mp)
  have jp: "int_literal ''2147483648'' = Some 2147483648
      \<and> - (2 ^ 63) \<le> (2147483648 :: int) \<and> (2147483648 :: int) < 2 ^ 63"
    using lit_a by simp
  have b: "int64Value_Set 0 ''2147483648'' zero_world
     = (None, zero_world\<lparr>int64s := (int64s zero_world)(0 := of_int 2147483648)\<rparr>)"
    using t [where s = "''2147483648''" and v = 2147483648 and p = 0 and w = zero_world,
        THEN conjunct2, THEN conjunct2, THEN conjunct2, THEN conjunct1] jp
    by (rule mp)
  have up: "uint_literal ''4294967296'' = Some 4294967296
      \<and> 2 ^ IntSize (example_lib 32) \<le> (4294967296 :: nat)"
    using lit_b by (simp add: n)
  have c: "fst (uintValue_Set (example_lib 32) 0 ''4294967296'' zero_world)
     = Some (NumError ''ParseUint'' ''4294967296'' ErrRange)"
    using t [where s = "''4294967296''" and m = 4294967296 and p = 0 and w = zero_world,
        THEN conjunct2, THEN conjunct2, THEN conjunct2, THEN conjunct2, THEN conjunct1] up
    by (rule mp)
  have hp: "int_literal ''-0x10'' = Some (- 16)
      \<and> - (2 ^ (IntSize (example_lib 64) - 1)) \<le> (- 16 :: int)
      \<and> (- 16 :: int) < 2 ^ (IntSize (example_lib 64) - 1)"
    using lit_c by (simp add: n')
  have d: "intValue_Set (example_lib 64) 0 ''-0x10'' zero_world
     = (None, zero_world\<lparr>ints := (ints zero_world)(0 := - 16)\<rparr>)"
    using t' [where s = "''-0x10''" and v = "- 16" and p = 0 and w = zero_world,
        THEN conjunct2, THEN conjunct1] hp
    by (rule mp)
  from a b c d show ?thesis by simp
qed

text \<open>
  C10. A failing \<^verbatim>\<open>Set\<close> of a built-in boolean or numeric kind still writes what the
  parser returned into the variable: \<^verbatim>\<open>false\<close> for a text that is no boolean token,
  the nearest bound of the width for an integer literal out of range (and whatever
  \<^verbatim>\<open>ParseFloat\<close> returned with its error). The error reaches the caller of the set's
  \<^verbatim>\<open>Set\<close>, the set itself is unchanged, so the name is not entered in \<open>actual\<close>, and
  the value the variable held before is gone.
\<close>

theorem failed_Set_overwrites:
  assumes "IntSize L = 32 \<or> IntSize L = 64"
  shows "(s \<notin> {''1'', ''0'', ''t'', ''f'', ''T'', ''F'', ''true'', ''false'', ''TRUE'', ''FALSE'', ''True'', ''False''}
            \<longrightarrow> boolValue_Set p s w
                  = (Some (NumError ''ParseBool'' s ErrSyntax), w\<lparr>bools := (bools w)(p := False)\<rparr>))
       \<and> (int_literal s = Some v \<and> 2 ^ (IntSize L - 1) \<le> v
            \<longrightarrow> intValue_Set L p s w
                  = (Some (NumError ''ParseInt'' s ErrRange), w\<lparr>ints := (ints w)(p := 2 ^ (IntSize L - 1) - 1)\<rparr>))
       \<and> (int_literal s = Some v \<and> v < - (2 ^ (IntSize L - 1))
            \<longrightarrow> intValue_Set L p s w
                  = (Some (NumError ''ParseInt'' s ErrRange), w\<lparr>ints := (ints w)(p := - (2 ^ (IntSize L - 1)))\<rparr>))
       \<and> (int_literal s = Some v \<and> 2 ^ 63 \<le> v
            \<longrightarrow> int64Value_Set p s w
                  = (Some (NumError ''ParseInt'' s ErrRange), w\<lparr>int64s := (int64s w)(p := 2 ^ 63 - 1)\<rparr>))
       \<and> (int_literal s = Some v \<and> v < - (2 ^ 63)
            \<longrightarrow> int64Value_Set p s w
                  = (Some (NumError ''ParseInt'' s ErrRange), w\<lparr>int64s := (int64s w)(p := - (2 ^ 63))\<rparr>))
       \<and> (uint_literal s = Some m \<and> 2 ^ IntSize L \<le> m
            \<longrightarrow> uintValue_Set L p s w
                  = (Some (NumError ''ParseUint'' s ErrRange), w\<lparr>uints := (uints w)(p := 2 ^ IntSize L - 1)\<rparr>))
       \<and> (uint_literal s = Some m \<and> 2 ^ 64 \<le> m
            \<longrightarrow> uint64Value_Set p s w
                  = (Some (NumError ''ParseUint'' s ErrRange), w\<lparr>uint64s := (uint64s w)(p := - 1)\<rparr>))
       \<and> (ParseFloat L s = (x, Some e)
            \<longrightarrow> float64Value_Set L p s w = (Some e, w\<lparr>float64s := (float64s w)(p := x)\<rparr>))
       \<and> (formal evs nm = Some r \<and> Value_Set L (Value r) s w = (Some e, w')
            \<longrightarrow> Set L nm s evs w = (Return (Some e), evs, w'))"
proof -
  have a: "s \<notin> {''1'', ''0'', ''t'', ''f'', ''T'', ''F'', ''true'', ''false'', ''TRUE'', ''FALSE'', ''True'', ''False''}
            \<longrightarrow> boolValue_Set p s w
                  = (Some (NumError ''ParseBool'' s ErrSyntax), w\<lparr>bools := (bools w)(p := False)\<rparr>)"
    by (auto simp add: boolValue_Set_def ParseBool_def)
  have b: "int_literal s = Some v \<and> 2 ^ (IntSize L - 1) \<le> v
            \<longrightarrow> intValue_Set L p s w
                  = (Some (NumError ''ParseInt'' s ErrRange), w\<lparr>ints := (ints w)(p := 2 ^ (IntSize L - 1) - 1)\<rparr>)"
  proof
    assume h: "int_literal s = Some v \<and> 2 ^ (IntSize L - 1) \<le> v"
    have "(0::int) < 2 ^ (IntSize L - 1)" by simp
    with h have "\<not> v < - (2 ^ (IntSize L - 1))" by linarith
    with h show "intValue_Set L p s w
                  = (Some (NumError ''ParseInt'' s ErrRange), w\<lparr>ints := (ints w)(p := 2 ^ (IntSize L - 1) - 1)\<rparr>)"
      using intValue_Set_literal [OF assms, of s v p w] by simp
  qed
  have c: "int_literal s = Some v \<and> v < - (2 ^ (IntSize L - 1))
            \<longrightarrow> intValue_Set L p s w
                  = (Some (NumError ''ParseInt'' s ErrRange), w\<lparr>ints := (ints w)(p := - (2 ^ (IntSize L - 1)))\<rparr>)"
    using intValue_Set_literal [OF assms, of s v p w] by simp
  have d: "int_literal s = Some v \<and> 2 ^ 63 \<le> v
            \<longrightarrow> int64Value_Set p s w
                  = (Some (NumError ''ParseInt'' s ErrRange), w\<lparr>int64s := (int64s w)(p := 2 ^ 63 - 1)\<rparr>)"
    using int64Value_Set_literal [of s v p w] by auto
  have e: "int_literal s = Some v \<and> v < - (2 ^ 63)
            \<longrightarrow> int64Value_Set p s w
                  = (Some (NumError ''ParseInt'' s ErrRange), w\<lparr>int64s := (int64s w)(p := - (2 ^ 63))\<rparr>)"
    using int64Value_Set_literal [of s v p w] by auto
  have f: "uint_literal s = Some m \<and> 2 ^ IntSize L \<le> m
            \<longrightarrow> uintValue_Set L p s w
                  = (Some (NumError ''ParseUint'' s ErrRange), w\<lparr>uints := (uints w)(p := 2 ^ IntSize L - 1)\<rparr>)"
    using uintValue_Set_literal [OF assms, of s m p w] by auto
  have g: "uint_literal s = Some m \<and> 2 ^ 64 \<le> m
            \<longrightarrow> uint64Value_Set p s w
                  = (Some (NumError ''ParseUint'' s ErrRange), w\<lparr>uint64s := (uint64s w)(p := - 1)\<rparr>)"
    using uint64Value_Set_literal [of s m p w] by auto
  have h: "ParseFloat L s = (x, Some e)
            \<longrightarrow> float64Value_Set L p s w = (Some e, w\<lparr>float64s := (float64s w)(p := x)\<rparr>)"
    by (simp add: float64Value_Set_def)
  have i: "formal evs nm = Some r \<and> Value_Set L (Value r) s w = (Some e, w')
            \<longrightarrow> Set L nm s evs w = (Return (Some e), evs, w')"
    by (simp add: Set_def)
  from a b c d e f g h i show ?thesis by blast
qed

theorem failed_Set_overwrites_witness:
  "Set (example_lib 32) ''B'' ''yes''
      (fst (snd (Var (boolValue 0) ''B'' (NewEnvVarSet ''t'' ExitOnError) zero_world)))
      (zero_world\<lparr>bools := (bools zero_world)(0 := True)\<rparr>)
    = (Return (Some (NumError ''ParseBool'' ''yes'' ErrSyntax)),
       fst (snd (Var (boolValue 0) ''B'' (NewEnvVarSet ''t'' ExitOnError) zero_world)),
       zero_world\<lparr>bools := ((bools zero_world)(0 := True))(0 := False)\<rparr>)
   \<and> intValue_Set (example_lib 32) 0 ''2147483648'' sevens
    = (Some (NumError ''ParseInt'' ''2147483648'' ErrRange), sevens\<lparr>ints := (ints sevens)(0 := 2147483647)\<rparr>)
   \<and> uintValue_Set (example_lib 32) 0 ''4294967296'' zero_world
    = (Some (NumError ''ParseUint'' ''4294967296'' ErrRange),
       zero_world\<lparr>uints := (uints zero_world)(0 := 4294967295)\<rparr>)"
proof -
  let ?L = "example_lib 32"
  let ?evs = "fst (snd (Var (boolValue 0) ''B'' (NewEnvVarSet ''t'' ExitOnError) zero_world)) :: unit EnvVarSet"
  let ?w = "zero_world\<lparr>bools := (bools zero_world)(0 := True)\<rparr>"
  let ?r = "\<lparr>Name = ''B'', Value = boolValue 0 :: unit Value\<rparr>"
  have sz: "IntSize ?L = 32 \<or> IntSize ?L = 64"
    by (simp add: example_lib_def)
  have n: "IntSize ?L = 32" by (simp add: example_lib_def)
  have f: "formal ?evs ''B'' = Some ?r"
    by (simp add: Var_def NewEnvVarSet_def)
  have nt: "''yes'' \<notin> {''1'', ''0'', ''t'', ''f'', ''T'', ''F'', ''true'', ''false'', ''TRUE'', ''FALSE'', ''True'', ''False''}"
    by simp
  note t = failed_Set_overwrites [OF sz]
  have b1: "boolValue_Set 0 ''yes'' ?w
      = (Some (NumError ''ParseBool'' ''yes'' ErrSyntax), ?w\<lparr>bools := (bools ?w)(0 := False)\<rparr>)"
    using t [where s = "''yes''" and p = 0 and w = ?w, THEN conjunct1] nt by (rule mp)
  then have b2: "formal ?evs ''B'' = Some ?r \<and> Value_Set ?L (Value ?r) ''yes'' ?w
      = (Some (NumError ''ParseBool'' ''yes'' ErrSyntax), ?w\<lparr>bools := (bools ?w)(0 := False)\<rparr>)"
    using f by simp
  have s1: "Set ?L ''B'' ''yes'' ?evs ?w
      = (Return (Some (NumError ''ParseBool'' ''yes'' ErrSyntax)), ?evs, ?w\<lparr>bools := (bools ?w)(0 := False)\<rparr>)"
    using t [where s = "''yes''" and w = ?w and evs = ?evs
        and nm = "''B''" and r = ?r and e = "NumError ''ParseBool'' ''yes'' ErrSyntax"
        and w' = "?w\<lparr>bools := (bools ?w)(0 := False)\<rparr>",
        THEN conjunct2, THEN conjunct2, THEN conjunct2, THEN conjunct2, THEN conjunct2,
        THEN conjunct2, THEN conjunct2, THEN conjunct2] b2
    by (rule mp)
  have ip: "int_literal ''2147483648'' = Some 2147483648 \<and> 2 ^ (IntSize ?L - 1) \<le> (2147483648 :: int)"
    using lit_a by (simp add: n)
  have i1: "intValue_Set ?L 0 ''2147483648'' sevens
      = (Some (NumError ''ParseInt'' ''2147483648'' ErrRange),
         sevens\<lparr>ints := (ints sevens)(0 := 2 ^ (IntSize ?L - 1) - 1)\<rparr>)"
    using t [where s = "''2147483648''" and v = 2147483648 and p = 0 and w = sevens,
        THEN conjunct2, THEN conjunct1] ip
    by (rule mp)
  have up: "uint_literal ''4294967296'' = Some 4294967296 \<and> 2 ^ IntSize ?L \<le> (4294967296 :: nat)"
    using lit_b by (simp add: n)
  have u1: "uintValue_Set ?L 0 ''4294967296'' zero_world
      = (Some (NumError ''ParseUint'' ''4294967296'' ErrRange),
         zero_world\<lparr>uints := (uints zero_world)(0 := 2 ^ IntSize ?L - 1)\<rparr>)"
    using t [where s = "''4294967296''" and m = 4294967296 and p = 0 and w = zero_world,
        THEN conjunct2, THEN conjunct2, THEN conjunct2, THEN conjunct2, THEN conjunct2, THEN conjunct1] up
    by (rule mp)
  from s1 i1 u1 show ?thesis
    by (simp add: n)
qed

section \<open>Formatting a value and setting it again\<close>








subsection \<open>The boolean, string and integer kinds\<close>








subsection \<open>Infinities and NaN\<close>


















subsection \<open>All kinds\<close>





end
